theory Spec2Isabelle
  imports
    Complex_Main
    "HOL-Library.AList"
    "HOL-Library.Log_Nat"
    "HOL-Library.Char_ord"
    "HOL-Library.List_Lexorder"
begin

section \<open>Python values\<close>

text \<open>
  Cell values as pandas hands them to the import loop, and the Python scalars the loop
  stores in a draft. \<open>NaN\<close> stands for a missing cell (what \<open>pd.notna\<close> rejects);
  \<open>PNone\<close> is Python's \<open>None\<close>. Finite floats are the rationals they denote.
\<close>

datatype pyval =
    PNone
  | NaN
  | PBool bool
  | PInt int
  | PFloat rat
  | PStr string
  | PDatetime int
  | NpInt int
  | NpFloat rat
  | PdTimestamp int

text \<open>\<open>pd.notna(value)\<close>.\<close>

fun pd_notna :: "pyval \<Rightarrow> bool" where
  "pd_notna PNone = False"
| "pd_notna NaN = False"
| "pd_notna v = True"

text \<open>
  Lines 258-261: numpy integers and floats are unboxed with \<open>.item()\<close>, pandas timestamps
  become datetimes, every other value is kept.
\<close>

fun to_python :: "pyval \<Rightarrow> pyval" where
  "to_python (NpInt i) = PInt i"
| "to_python (NpFloat r) = PFloat r"
| "to_python (PdTimestamp t) = PDatetime t"
| "to_python v = v"

text \<open>Python truthiness, as \<open>if value:\<close> tests it.\<close>

fun truthy :: "pyval \<Rightarrow> bool" where
  "truthy PNone = False"
| "truthy NaN = True"
| "truthy (PBool b) = b"
| "truthy (PInt i) = (i \<noteq> 0)"
| "truthy (PFloat r) = (r \<noteq> 0)"
| "truthy (PStr s) = (s \<noteq> [])"
| "truthy (PDatetime t) = True"
| "truthy (NpInt i) = (i \<noteq> 0)"
| "truthy (NpFloat r) = (r \<noteq> 0)"
| "truthy (PdTimestamp t) = True"

text \<open>\<open>str(n)\<close> for a non-negative integer, as the f-strings of the messages print it.\<close>

fun py_str :: "nat \<Rightarrow> string" where
  "py_str n =
     (if n < 10 then [char_of (48 + n)]
      else py_str (n div 10) @ [char_of (48 + n mod 10)])"

declare py_str.simps [simp del]

section \<open>Binary64 arithmetic of the progress computation\<close>

text \<open>
  \<open>int(((idx + 1) / total_rows) * 100)\<close> is evaluated in floating point: the true
  division of two ints is the quotient rounded to the nearest binary64 value (ties to
  even), the product with \<open>100\<close> is rounded again, and \<open>int\<close> truncates. A finite
  binary64 value in the normal range is a rational \<open>m * 2 ^ e\<close> with \<open>\<bar>m\<bar> < 2 ^ 53\<close>;
  \<open>rn53\<close> rounds a rational to the nearest such value. The exponent range of binary64
  is not modelled: row counts stay far inside it, and below \<open>2 ^ 53\<close> a division of
  numpy integers rounds the same quotient.
\<close>

definition round_half_even :: "rat \<Rightarrow> int" where
  "round_half_even x =
     (let f = \<lfloor>x\<rfloor>; d = x - of_int f
      in if d < 1 / 2 then f
         else if 1 / 2 < d then f + 1
         else if even f then f else f + 1)"

text \<open>The binary exponent \<open>\<lfloor>log\<^sub>2 x\<rfloor>\<close> of a positive rational.\<close>

definition binade :: "rat \<Rightarrow> int" where
  "binade x =
     (let (p, q) = quotient_of x; e0 = bitlen p - bitlen q
      in if power_int 2 e0 \<le> x then e0 else e0 - 1)"

definition rn53 :: "rat \<Rightarrow> rat" where
  "rn53 x =
     (if x = 0 then 0
      else let u = power_int 2 (binade \<bar>x\<bar> - 52)
           in of_int (round_half_even (x / u)) * u)"

definition py_truediv :: "int \<Rightarrow> int \<Rightarrow> rat" where
  "py_truediv a b = rn53 (of_int a / of_int b)"

definition py_fmul :: "rat \<Rightarrow> rat \<Rightarrow> rat" where
  "py_fmul x y = rn53 (x * y)"

definition py_int :: "rat \<Rightarrow> int" where
  "py_int x = (if 0 \<le> x then \<lfloor>x\<rfloor> else \<lceil>x\<rceil>)"

text \<open>Line 307: \<open>progress = int(((idx + 1) / total_rows) * 100)\<close>.\<close>

definition progress_percent :: "nat \<Rightarrow> nat \<Rightarrow> int" where
  "progress_percent idx total_rows =
     py_int (py_fmul (py_truediv (int idx + 1) (int total_rows)) 100)"

section \<open>Dictionaries\<close>

text \<open>
  A Python dict is an association list with distinct keys in insertion order:
  \<open>d[k] = v\<close> is \<open>AList.update k v d\<close>, which overwrites in place or appends.
\<close>

type_synonym ('k, 'v) dict = "('k \<times> 'v) list"

definition dict_keys :: "('k, 'v) dict \<Rightarrow> 'k list" where
  "dict_keys d = map fst d"

definition dict_has :: "('k, 'v) dict \<Rightarrow> 'k \<Rightarrow> bool" where
  "dict_has d k = (map_of d k \<noteq> None)"

section \<open>Listing the importable doctypes\<close>

text \<open>
  \<open>get_cipl_app_doctypes\<close> queries the \<open>DocType\<close> table through \<open>frappe.get_all\<close>.
  The table is a list of rows; a filter dict maps a column to one condition.
  \<open>like_match\<close> is SQL \<open>LIKE\<close>: \<open>%\<close> matches any run of characters and \<open>_\<close> any
  single one (collation and escapes are left out). The query returns the names of
  the rows that satisfy every condition, ordered by name, from \<open>limit_start\<close>, at
  most \<open>limit_page_length\<close> of them.
\<close>

record doctype_row =
  name :: string
  module :: string
  istable :: int

datatype cond =
    Equals pyval
  | NotIn "string list"
  | Like string

fun like_match :: "string \<Rightarrow> string \<Rightarrow> bool" where
  "like_match [] [] = True"
| "like_match [] (c # cs) = False"
| "like_match (p # ps) [] = (p = CHR ''%'' \<and> like_match ps [])"
| "like_match (p # ps) (c # cs) =
     (if p = CHR ''%'' then like_match ps (c # cs) \<or> like_match (p # ps) cs
      else (p = CHR ''_'' \<or> p = c) \<and> like_match ps cs)"

fun cond_holds :: "cond \<Rightarrow> pyval \<Rightarrow> bool" where
  "cond_holds (Equals v) x = (x = v)"
| "cond_holds (NotIn xs) x = (case x of PStr s \<Rightarrow> s \<notin> set xs | _ \<Rightarrow> True)"
| "cond_holds (Like p) x = (case x of PStr s \<Rightarrow> like_match p s | _ \<Rightarrow> False)"

definition row_field :: "doctype_row \<Rightarrow> string \<Rightarrow> pyval" where
  "row_field r k =
     (if k = ''name'' then PStr (name r)
      else if k = ''module'' then PStr (module r)
      else if k = ''istable'' then PInt (istable r)
      else PNone)"

definition get_all ::
  "doctype_row list \<Rightarrow> (string, cond) dict \<Rightarrow> nat \<Rightarrow> nat \<Rightarrow> string list" where
  "get_all table filters limit_start limit_page_length =
     take limit_page_length (drop limit_start
       (sort (map name
         (filter (\<lambda>r. list_all (\<lambda>(k, c). cond_holds c (row_field r k)) filters) table))))"

text \<open>
  Lines 11-39. The \<open>name\<close> entry of \<open>filter_conditions\<close> first holds the exclusion list;
  \<open>filter_conditions['name'] = ['like', ...]\<close> then assigns the same key. The arguments
  \<open>doctype\<close>, \<open>searchfield\<close> and \<open>filters\<close> are not read by the body; the decorator that
  sanitises them is taken to let the call through.
\<close>

definition get_cipl_app_doctypes ::
  "doctype_row list \<Rightarrow> string \<Rightarrow> nat \<Rightarrow> nat \<Rightarrow> string list list" where
  "get_cipl_app_doctypes table txt start page_len =
     (let excluded_doctypes = [''excel_field_mapping'', ''field_mapping_child''];
          filter_conditions =
            [(''module'', Equals (PStr ''Cipl App'')),
             (''istable'', Equals (PInt 0)),
             (''name'', NotIn excluded_doctypes)];
          filter_conditions =
            (if txt \<noteq> [] then
               AList.update ''name'' (Like (''%'' @ txt @ ''%'')) filter_conditions
             else filter_conditions);
          doctypes = get_all table filter_conditions start page_len
      in map (\<lambda>d. [d]) doctypes)"

section \<open>Import preview\<close>

record preview =
  total_excel_columns :: nat
  mapped_fields :: "string list"
  missing_fields :: "string list"
  missing_in_excel :: "string list"
  has_missing :: bool

datatype preview_result =
    PreviewSuccess preview
  | PreviewError string

text \<open>Lines 64-67: the Excel columns that are not keys of the mapping.\<close>

fun missing_fields_loop ::
  "(string, string) dict \<Rightarrow> string list \<Rightarrow> string list \<Rightarrow> string list" where
  "missing_fields_loop field_mapping [] acc = acc"
| "missing_fields_loop field_mapping (col # cols) acc =
     missing_fields_loop field_mapping cols
       (if \<not> dict_has field_mapping col then acc @ [col] else acc)"

text \<open>Lines 70-73: the keys of the mapping that are Excel columns.\<close>

fun mapped_fields_loop :: "string list \<Rightarrow> string list \<Rightarrow> string list \<Rightarrow> string list" where
  "mapped_fields_loop excel_columns [] acc = acc"
| "mapped_fields_loop excel_columns (excel_field # ks) acc =
     mapped_fields_loop excel_columns ks
       (if excel_field \<in> set excel_columns then acc @ [excel_field] else acc)"

text \<open>Lines 76-79: the keys of the mapping that are not Excel columns.\<close>

fun missing_in_excel_loop :: "string list \<Rightarrow> string list \<Rightarrow> string list \<Rightarrow> string list" where
  "missing_in_excel_loop excel_columns [] acc = acc"
| "missing_in_excel_loop excel_columns (excel_field # ks) acc =
     missing_in_excel_loop excel_columns ks
       (if excel_field \<notin> set excel_columns then acc @ [excel_field] else acc)"

text \<open>Lines 60-88: what the preview computes once the header row has been read.\<close>

definition preview_body :: "(string, string) dict \<Rightarrow> string list \<Rightarrow> preview" where
  "preview_body field_mapping excel_columns =
     (let missing_fields = missing_fields_loop field_mapping excel_columns [];
          mapped_fields = mapped_fields_loop excel_columns (dict_keys field_mapping) [];
          missing_in_excel = missing_in_excel_loop excel_columns (dict_keys field_mapping) []
      in \<lparr>total_excel_columns = length excel_columns,
          mapped_fields = mapped_fields,
          missing_fields = missing_fields,
          missing_in_excel = missing_in_excel,
          has_missing = (length missing_fields > 0 \<or> length missing_in_excel > 0)\<rparr>)"

text \<open>
  An exception carries the text of \<open>str(e)\<close> and the traceback the framework prints
  for it.
\<close>

datatype exn = Exn (exn_str: string) (exn_traceback: string)

text \<open>
  \<open>validate_import_preview\<close>, lines 45-95. The three calls that leave the function are
  taken with their results: \<open>resolved\<close> is what \<open>validate_excel_file\<close> returned or
  raised, \<open>field_mapping\<close> what \<open>get_field_mapping\<close> returned (it never raises),
  \<open>header\<close> what reading the header row returned or raised. Every exception ends in
  the error result.
\<close>

definition validate_import_preview ::
  "string \<Rightarrow> exn + string \<Rightarrow> (string, string) dict \<Rightarrow> exn + string list \<Rightarrow> preview_result" where
  "validate_import_preview doctype_name resolved field_mapping header =
     (case resolved of
        Inl e \<Rightarrow> PreviewError (exn_str e)
      | Inr file_path \<Rightarrow>
          if field_mapping = [] then
            PreviewError (''No field mappings found for '' @ doctype_name)
          else
            (case header of
               Inl e \<Rightarrow> PreviewError (exn_str e)
             | Inr excel_columns \<Rightarrow>
                 PreviewSuccess (preview_body field_mapping excel_columns)))"

section \<open>The import engine\<close>

subsection \<open>The collaborators\<close>

text \<open>
  A document is a dict from field names to values. The entity store, the file system and
  the session are outside the repository: the engine is written against \<open>'s store\<close>, the
  operations it calls on a store state \<open>'s\<close>. An operation that can raise returns the
  exception beside the state it leaves behind.
  \<^item> \<open>db_get_value dt (f, v) want\<close> is \<open>frappe.db.get_value(dt, {f: v}, want)\<close>;
  \<^item> \<open>get_doc dt nm\<close> is \<open>frappe.get_doc(dt, nm)\<close>;
  \<^item> \<open>doc_save d\<close> is \<open>d.save(ignore_permissions=True)\<close>;
  \<^item> \<open>doc_insert d\<close> is \<open>frappe.get_doc(d).insert(ignore_permissions=True)\<close>;
  \<^item> \<open>db_exists dt (f, v)\<close> is \<open>frappe.db.exists(dt, {f: v})\<close>;
  \<^item> \<open>delete_doc dt nm\<close> is \<open>frappe.delete_doc(dt, nm)\<close>.
  Publishing a progress event and writing the error log are total: the realtime channel
  swallows its connection failures.
\<close>

type_synonym doc = "(string, pyval) dict"

record 's store =
  set_user :: "string \<Rightarrow> 's \<Rightarrow> 's"
  db_get_value :: "string \<Rightarrow> string \<times> pyval \<Rightarrow> string \<Rightarrow> 's \<Rightarrow> (exn + pyval) \<times> 's"
  get_doc :: "string \<Rightarrow> pyval \<Rightarrow> 's \<Rightarrow> (exn + doc) \<times> 's"
  doc_save :: "doc \<Rightarrow> 's \<Rightarrow> exn option \<times> 's"
  doc_insert :: "doc \<Rightarrow> 's \<Rightarrow> exn option \<times> 's"
  db_commit :: "'s \<Rightarrow> exn option \<times> 's"
  db_rollback :: "'s \<Rightarrow> 's"
  path_exists :: "string \<Rightarrow> 's \<Rightarrow> bool"
  os_remove :: "string \<Rightarrow> 's \<Rightarrow> exn option \<times> 's"
  db_exists :: "string \<Rightarrow> string \<times> pyval \<Rightarrow> 's \<Rightarrow> (exn + pyval) \<times> 's"
  delete_doc :: "string \<Rightarrow> pyval \<Rightarrow> 's \<Rightarrow> exn option \<times> 's"

text \<open>The arguments of \<open>process_excel_import\<close>, as \<open>start_excel_import\<close> enqueues them.\<close>

record params =
  doctype_name :: string
  file_path :: string
  field_mapping :: "(string, string) dict"
  unique_field :: "string option"
  file_url :: string
  allow_create :: int
  allow_update :: int
  user :: string

text \<open>The DataFrame \<open>pd.read_excel\<close> returns: the header and, per row, the cell of each column.\<close>

record dataframe =
  columns :: "string list"
  rows :: "(string \<Rightarrow> pyval) list"

record event =
  progress :: int
  total :: nat
  message :: string
  status :: string

text \<open>The local variables of one run, with the store state and what the run has emitted.\<close>

record 's run =
  db :: 's
  events :: "event list"
  error_log :: "(string \<times> string) list"
  success_count :: nat
  created_count :: nat
  updated_count :: nat
  skipped_count :: nat
  error_count :: nat
  skipped_fields_log :: "string set"

text \<open>Lines 355-368.\<close>

definition publish_progress :: "int \<Rightarrow> nat \<Rightarrow> string \<Rightarrow> string \<Rightarrow> 's run \<Rightarrow> 's run" where
  "publish_progress progress' total' message' status' st =
     st\<lparr>events := events st @
        [\<lparr>progress = progress', total = total', message = message', status = status'\<rparr>]\<rparr>"

text \<open>\<open>frappe.log_error(message, title)\<close>.\<close>

definition log_error :: "string \<Rightarrow> string \<Rightarrow> 's run \<Rightarrow> 's run" where
  "log_error message' title st = st\<lparr>error_log := error_log st @ [(message', title)]\<rparr>"

subsection \<open>One row\<close>

text \<open>
  Lines 247-267: the draft \<open>doc_data\<close> and \<open>unique_value\<close>, by a loop over the items of
  the mapping.
\<close>

fun map_row ::
  "(string \<Rightarrow> pyval) \<Rightarrow> string list \<Rightarrow> string option \<Rightarrow> (string, string) dict \<Rightarrow>
   doc \<times> pyval \<Rightarrow> doc \<times> pyval" where
  "map_row row excel_columns unique_field' [] acc = acc"
| "map_row row excel_columns unique_field' ((excel_field, doctype_field) # items)
     (doc_data, unique_value) =
     map_row row excel_columns unique_field' items
       (if excel_field \<in> set excel_columns then
          (let value = row excel_field
           in if pd_notna value then
                (let value = to_python value
                 in (AList.update doctype_field value doc_data,
                     if (case unique_field' of None \<Rightarrow> False | Some f \<Rightarrow> f \<noteq> [])
                        \<and> Some doctype_field = unique_field' 
                     then value else unique_value))
              else (doc_data, unique_value))
        else (doc_data, unique_value))"

definition row_draft :: "params \<Rightarrow> string list \<Rightarrow> (string \<Rightarrow> pyval) \<Rightarrow> doc \<times> pyval" where
  "row_draft P excel_columns row =
     map_row row excel_columns (unique_field P) (field_mapping P)
       ([(''doctype'', PStr (doctype_name P))], PNone)"

text \<open>Lines 269-276: \<open>existing_doc\<close>.\<close>

definition find_existing ::
  "'s store \<Rightarrow> params \<Rightarrow> pyval \<Rightarrow> 's \<Rightarrow> (exn + pyval) \<times> 's" where
  "find_existing S P unique_value s =
     (case unique_field P of
        None \<Rightarrow> (Inr PNone, s)
      | Some f \<Rightarrow>
          if f \<noteq> [] \<and> truthy unique_value then
            db_get_value S (doctype_name P) (f, unique_value) ''name'' s
          else (Inr PNone, s))"

text \<open>Lines 284-286: \<open>setattr(doc, field, value)\<close> for every item of the draft but \<open>doctype\<close>.\<close>

fun set_fields :: "doc \<Rightarrow> doc \<Rightarrow> doc" where
  "set_fields doc [] = doc"
| "set_fields doc ((field, value) # items) =
     set_fields (if field \<noteq> ''doctype'' then AList.update field value doc else doc) items"

text \<open>
  Lines 278-303: the action. \<open>Some e\<close> is the exception that leaves the \<open>try\<close> block; the
  counters are incremented only after the store operation has returned.
\<close>

definition reconcile ::
  "'s store \<Rightarrow> params \<Rightarrow> doc \<Rightarrow> pyval \<Rightarrow> 's run \<Rightarrow> exn option \<times> 's run" where
  "reconcile S P doc_data existing_doc st =
     (if truthy existing_doc then
        if allow_update P \<noteq> 0 then
          (case get_doc S (doctype_name P) existing_doc (db st) of
             (Inl e, s2) \<Rightarrow> (Some e, st\<lparr>db := s2\<rparr>)
           | (Inr doc, s2) \<Rightarrow>
               (case doc_save S (set_fields doc doc_data) s2 of
                  (Some e, s3) \<Rightarrow> (Some e, st\<lparr>db := s3\<rparr>)
                | (None, s3) \<Rightarrow>
                    (None, st\<lparr>db := s3,
                              updated_count := updated_count st + 1,
                              success_count := success_count st + 1\<rparr>)))
        else (None, st\<lparr>skipped_count := skipped_count st + 1\<rparr>)
      else
        if allow_create P \<noteq> 0 then
          (case doc_insert S doc_data (db st) of
             (Some e, s2) \<Rightarrow> (Some e, st\<lparr>db := s2\<rparr>)
           | (None, s2) \<Rightarrow>
               (None, st\<lparr>db := s2,
                         created_count := created_count st + 1,
                         success_count := success_count st + 1\<rparr>))
        else (None, st\<lparr>skipped_count := skipped_count st + 1\<rparr>))"

text \<open>Lines 305-313.\<close>

definition report_progress :: "nat \<Rightarrow> nat \<Rightarrow> 's run \<Rightarrow> 's run" where
  "report_progress total_rows idx st =
     (if (idx + 1) mod 10 = 0 \<or> idx + 1 = total_rows then
        publish_progress (progress_percent idx total_rows) total_rows
          (''Processing row '' @ py_str (idx + 1) @ '' of '' @ py_str total_rows)
          ''in_progress'' st
      else st)"

text \<open>Lines 246-313: the body of the \<open>try\<close> for the row at index \<open>idx\<close>.\<close>

definition process_row ::
  "'s store \<Rightarrow> params \<Rightarrow> string list \<Rightarrow> nat \<Rightarrow> nat \<Rightarrow> (string \<Rightarrow> pyval) \<Rightarrow> 's run \<Rightarrow>
   exn option \<times> 's run" where
  "process_row S P excel_columns total_rows idx row st =
     (case row_draft P excel_columns row of
        (doc_data, unique_value) \<Rightarrow>
          (case find_existing S P unique_value (db st) of
             (Inl e, s1) \<Rightarrow> (Some e, st\<lparr>db := s1\<rparr>)
           | (Inr existing_doc, s1) \<Rightarrow>
               (case reconcile S P doc_data existing_doc (st\<lparr>db := s1\<rparr>) of
                  (Some e, st') \<Rightarrow> (Some e, st')
                | (None, st') \<Rightarrow> (None, report_progress total_rows idx st'))))"

subsection \<open>The run\<close>

text \<open>Lines 244-323: the loop, with the \<open>except\<close> branch of each row.\<close>

fun rows_loop ::
  "'s store \<Rightarrow> params \<Rightarrow> string list \<Rightarrow> nat \<Rightarrow> nat \<Rightarrow> (string \<Rightarrow> pyval) list \<Rightarrow> 's run \<Rightarrow>
   's run" where
  "rows_loop S P excel_columns total_rows idx [] st = st"
| "rows_loop S P excel_columns total_rows idx (row # rest) st =
     (case process_row S P excel_columns total_rows idx row st of
        (None, st') \<Rightarrow> rows_loop S P excel_columns total_rows (idx + 1) rest st'
      | (Some e, st') \<Rightarrow>
          rows_loop S P excel_columns total_rows (idx + 1) rest
            (log_error
               (''Row '' @ py_str (idx + 1) @ '': '' @ exn_str e @ [CHR 0x0A] @ exn_traceback e)
               (''Excel Import Row Error - '' @ doctype_name P)
               (st'\<lparr>error_count := error_count st' + 1\<rparr>)))"

text \<open>Lines 349-352: the handler of the outer \<open>try\<close>.\<close>

definition on_failure :: "'s store \<Rightarrow> params \<Rightarrow> exn \<Rightarrow> 's run \<Rightarrow> 's run" where
  "on_failure S P e st =
     (let st1 = log_error (exn_traceback e) (''Excel Import Error - '' @ doctype_name P) st;
          st2 = publish_progress 0 0 (''Import failed: '' @ exn_str e) ''error'' st1
      in st2\<lparr>db := db_rollback S (db st2)\<rparr>)"

text \<open>Lines 330-337: the body of the cleanup \<open>try\<close>.\<close>

definition cleanup :: "'s store \<Rightarrow> params \<Rightarrow> 's \<Rightarrow> exn option \<times> 's" where
  "cleanup S P s =
     (if path_exists S (file_path P) s then
        (case os_remove S (file_path P) s of
           (Some e, s1) \<Rightarrow> (Some e, s1)
         | (None, s1) \<Rightarrow>
             (case db_exists S ''File'' (''file_url'', PStr (file_url P)) s1 of
                (Inl e, s2) \<Rightarrow> (Some e, s2)
              | (Inr found, s2) \<Rightarrow>
                  if truthy found then
                    (case db_get_value S ''File'' (''file_url'', PStr (file_url P)) ''name'' s2 of
                       (Inl e, s3) \<Rightarrow> (Some e, s3)
                     | (Inr nm, s3) \<Rightarrow>
                         (case delete_doc S ''File'' nm s3 of
                            (Some e, s4) \<Rightarrow> (Some e, s4)
                          | (None, s4) \<Rightarrow> db_commit S s4))
                  else (None, s2)))
      else (None, s))"

text \<open>Line 214 and lines 228-233: the run's state before the file is read.\<close>

definition start_run :: "'s store \<Rightarrow> params \<Rightarrow> 's \<Rightarrow> 's run" where
  "start_run S P s0 =
     \<lparr>db = set_user S (user P) s0, events = [], error_log = [],
      success_count = 0, created_count = 0, updated_count = 0, skipped_count = 0,
      error_count = 0, skipped_fields_log = {}\<rparr>"

text \<open>Lines 236-323: the run's state when the loop over a non-empty dataset has ended.\<close>

definition after_rows :: "'s store \<Rightarrow> params \<Rightarrow> dataframe \<Rightarrow> 's \<Rightarrow> 's run" where
  "after_rows S P df s0 =
     (let excel_columns = columns df;
          st1 = (start_run S P s0)
                  \<lparr>skipped_fields_log :=
                     set (filter (\<lambda>col. \<not> dict_has (field_mapping P) col) excel_columns)\<rparr>
      in rows_loop S P excel_columns (length (rows df)) 0 (rows df) st1)"

text \<open>Lines 343-345.\<close>

definition final_message :: "'s run \<Rightarrow> string" where
  "final_message st =
     (let message = ''Import completed: '' @ py_str (created_count st) @ '' created, ''
                    @ py_str (updated_count st) @ '' updated, ''
                    @ py_str (skipped_count st) @ '' skipped''
      in if error_count st > 0 then message @ '', '' @ py_str (error_count st) @ '' errors''
         else message)"

text \<open>
  \<open>process_excel_import\<close>, lines 210-352. \<open>read_result\<close> is what \<open>pd.read_excel\<close> returned
  or raised; \<open>s0\<close> is the store when the job starts. The result is the run's state when the
  function returns.
\<close>

definition process_excel_import ::
  "'s store \<Rightarrow> params \<Rightarrow> exn + dataframe \<Rightarrow> 's \<Rightarrow> 's run" where
  "process_excel_import S P read_result s0 =
     (case read_result of
        Inl e \<Rightarrow> on_failure S P e (start_run S P s0)
      | Inr df \<Rightarrow>
          (let total_rows = length (rows df)
           in if total_rows \<le> 0 then
                publish_progress 0 0 ''No data found in Excel file'' ''error'' (start_run S P s0)
              else
                (let st2 = after_rows S P df s0
                 in case db_commit S (db st2) of
                      (Some e, s3) \<Rightarrow> on_failure S P e (st2\<lparr>db := s3\<rparr>)
                    | (None, s3) \<Rightarrow>
                        (let st3 =
                               (case cleanup S P s3 of
                                  (Some e, s4) \<Rightarrow>
                                    log_error (''File deletion error: '' @ exn_str e)
                                      ''Excel Import File Cleanup'' (st2\<lparr>db := s4\<rparr>)
                                | (None, s4) \<Rightarrow> st2\<lparr>db := s4\<rparr>)
                         in publish_progress 100 total_rows (final_message st3)
                              ''completed'' st3))))"

section \<open>An in-memory store and sample data\<close>

text \<open>
  A small store to run the engine on: documents in a list, a committed snapshot that
  \<open>db_rollback\<close> restores, the files on disk, and a switch that makes \<open>db_commit\<close> raise.
  Saving or inserting a document that lacks one of the \<open>mandatory\<close> fields raises, as the
  framework's validation does.
\<close>

record mem =
  docs :: "doc list"
  committed :: "doc list"
  files :: "string list"
  commit_ok :: bool

definition doc_matches :: "string \<Rightarrow> string \<times> pyval \<Rightarrow> doc \<Rightarrow> bool" where
  "doc_matches dt fv d =
     (map_of d ''doctype'' = Some (PStr dt) \<and> map_of d (fst fv) = Some (snd fv))"

definition lookup_field :: "string \<Rightarrow> string \<times> pyval \<Rightarrow> string \<Rightarrow> mem \<Rightarrow> pyval" where
  "lookup_field dt fv want s =
     (case find (doc_matches dt fv) (docs s) of
        None \<Rightarrow> PNone
      | Some d \<Rightarrow> (case map_of d want of None \<Rightarrow> PNone | Some v \<Rightarrow> v))"

definition missing_mandatory :: "string list \<Rightarrow> doc \<Rightarrow> bool" where
  "missing_mandatory mandatory d = list_ex (\<lambda>f. map_of d f = None) mandatory"

definition mem_store :: "string list \<Rightarrow> mem store" where
  "mem_store mandatory =
     \<lparr>set_user = (\<lambda>u s. s),
      db_get_value = (\<lambda>dt fv want s. (Inr (lookup_field dt fv want s), s)),
      get_doc = (\<lambda>dt nm s.
        case find (doc_matches dt (''name'', nm)) (docs s) of
          None \<Rightarrow> (Inl (Exn ''DoesNotExistError'' ''Traceback''), s)
        | Some d \<Rightarrow> (Inr d, s)),
      doc_save = (\<lambda>d s.
        if missing_mandatory mandatory d then (Some (Exn ''MandatoryError'' ''Traceback''), s)
        else (None, s\<lparr>docs := map (\<lambda>d'. if map_of d' ''name'' = map_of d ''name'' then d else d')
                                    (docs s)\<rparr>)),
      doc_insert = (\<lambda>d s.
        if missing_mandatory mandatory d then (Some (Exn ''MandatoryError'' ''Traceback''), s)
        else (None, s\<lparr>docs := docs s @
                [AList.update ''name'' (PStr (''DOC-'' @ py_str (length (docs s) + 1))) d]\<rparr>)),
      db_commit = (\<lambda>s.
        if commit_ok s then (None, s\<lparr>committed := docs s\<rparr>)
        else (Some (Exn ''OperationalError'' ''Traceback''), s)),
      db_rollback = (\<lambda>s. s\<lparr>docs := committed s\<rparr>),
      path_exists = (\<lambda>p s. p \<in> set (files s)),
      os_remove = (\<lambda>p s. (None, s\<lparr>files := removeAll p (files s)\<rparr>)),
      db_exists = (\<lambda>dt fv s. (Inr (lookup_field dt fv ''name'' s), s)),
      delete_doc = (\<lambda>dt nm s.
        (None, s\<lparr>docs := filter (\<lambda>d. \<not> doc_matches dt (''name'', nm) d) (docs s)\<rparr>))\<rparr>"

text \<open>
  The mapping of the specification's scenarios: \<open>Name\<close> goes to \<open>title\<close>, \<open>Email\<close> to
  \<open>email_addr\<close>, which is the unique field.
\<close>

definition contact_params :: "int \<Rightarrow> int \<Rightarrow> params" where
  "contact_params create update =
     \<lparr>doctype_name = ''Contact'',
      file_path = ''site/private/files/contacts.xlsx'',
      field_mapping = [(''Name'', ''title''), (''Email'', ''email_addr'')],
      unique_field = Some ''email_addr'',
      file_url = ''/private/files/contacts.xlsx'',
      allow_create = create,
      allow_update = update,
      user = ''Administrator''\<rparr>"

definition contact_columns :: "string list" where
  "contact_columns = [''Name'', ''Email'']"

definition alice_row :: "string \<Rightarrow> pyval" where
  "alice_row = (\<lambda>c. NaN)(''Name'' := PStr ''Alice'', ''Email'' := PStr ''a@x.com'')"

definition bob_row :: "string \<Rightarrow> pyval" where
  "bob_row = (\<lambda>c. NaN)(''Name'' := PStr ''Bob'')"

definition alice_doc :: doc where
  "alice_doc =
     [(''doctype'', PStr ''Contact''), (''name'', PStr ''DOC-1''),
      (''title'', PStr ''Alice A.''), (''email_addr'', PStr ''a@x.com''),
      (''phone'', PStr ''555-0100'')]"

definition mem_empty :: mem where
  "mem_empty =
     \<lparr>docs = [], committed = [], files = [''site/private/files/contacts.xlsx''],
      commit_ok = True\<rparr>"

definition mem_alice :: mem where
  "mem_alice = mem_empty\<lparr>docs := [alice_doc], committed := [alice_doc]\<rparr>"

section \<open>Notions used in the statements\<close>

text \<open>The four counters of a run that the final message reports, and their sum.\<close>

definition counters :: "'s run \<Rightarrow> nat \<times> nat \<times> nat \<times> nat" where
  "counters st = (created_count st, updated_count st, skipped_count st, error_count st)"

definition counted :: "'s run \<Rightarrow> nat" where
  "counted st = created_count st + updated_count st + skipped_count st + error_count st"

text \<open>What one row can do to the counters: exactly one of them goes up by one.\<close>

datatype outcome = Created | Updated | Skipped | Errored

definition bump :: "outcome \<Rightarrow> 's run \<Rightarrow> nat \<times> nat \<times> nat \<times> nat" where
  "bump out st =
     (created_count st + (if out = Created then 1 else 0),
      updated_count st + (if out = Updated then 1 else 0),
      skipped_count st + (if out = Skipped then 1 else 0),
      error_count st + (if out = Errored then 1 else 0))"

text \<open>
  A well-formed run of \<open>in_progress\<close> events: each between 0 and 100, in non-decreasing
  order of \<open>progress\<close>.
\<close>

definition in_progress_ok :: "event list \<Rightarrow> bool" where
  "in_progress_ok evs =
     (list_all (\<lambda>e. status e = ''in_progress'' \<and> 0 \<le> progress e \<and> progress e \<le> 100) evs
      \<and> sorted (map progress evs))"

text \<open>
  The success path of \<open>process_excel_import\<close>: the file was read, it has rows, and the
  commit after the loop did not raise.
\<close>

definition run_commits :: "'s store \<Rightarrow> params \<Rightarrow> exn + dataframe \<Rightarrow> 's \<Rightarrow> bool" where
  "run_commits S P read_result s0 =
     (case read_result of
        Inl e \<Rightarrow> False
      | Inr df \<Rightarrow> rows df \<noteq> [] \<and> fst (db_commit S (db (after_rows S P df s0))) = None)"

text \<open>
  The invariant of the loop before the row at index \<open>k\<close>: the events so far are
  well-formed and none exceeds what a later row would report.
\<close>

definition loop_inv :: "nat \<Rightarrow> nat \<Rightarrow> event list \<Rightarrow> bool" where
  "loop_inv t k evs =
     (in_progress_ok evs \<and> list_all (\<lambda>e. \<forall>j\<ge>k. progress e \<le> progress_percent j t) evs)"

section \<open>Sample runs\<close>

definition df1 :: dataframe where
  "df1 = \<lparr>columns = contact_columns, rows = [alice_row]\<rparr>"

definition df2 :: dataframe where
  "df2 = \<lparr>columns = contact_columns, rows = [alice_row, bob_row]\<rparr>"

definition alice_draft :: doc where
  "alice_draft =
     [(''doctype'', PStr ''Contact''), (''title'', PStr ''Alice''),
      (''email_addr'', PStr ''a@x.com'')]"

definition alice_updated :: doc where
  "alice_updated =
     [(''doctype'', PStr ''Contact''), (''name'', PStr ''DOC-1''),
      (''title'', PStr ''Alice''), (''email_addr'', PStr ''a@x.com''),
      (''phone'', PStr ''555-0100'')]"

text \<open>A mapping whose first target field is named \<open>doctype\<close>.\<close>

definition kind_params :: params where
  "kind_params = (contact_params 1 1)
     \<lparr>field_mapping := [(''Kind'', ''doctype''), (''Email'', ''email_addr'')]\<rparr>"

definition kind_row :: "string \<Rightarrow> pyval" where
  "kind_row = (\<lambda>c. NaN)(''Kind'' := PStr ''Lead'', ''Email'' := PStr ''a@x.com'')"

text \<open>Items keyed by a numeric code; the stored item and the imported row both have code 0.\<close>

definition item_params :: params where
  "item_params =
     \<lparr>doctype_name = ''Item'', file_path = ''site/private/files/items.xlsx'',
      field_mapping = [(''Code'', ''code''), (''Label'', ''label'')],
      unique_field = Some ''code'', file_url = ''/private/files/items.xlsx'',
      allow_create = 1, allow_update = 1, user = ''Administrator''\<rparr>"

definition item_row :: "string \<Rightarrow> pyval" where
  "item_row = (\<lambda>c. NaN)(''Code'' := NpInt 0, ''Label'' := PStr ''Spare part'')"

definition item_doc :: doc where
  "item_doc = [(''doctype'', PStr ''Item''), (''name'', PStr ''DOC-1''), (''code'', PInt 0),
               (''label'', PStr ''Spare'')]"

definition mem_item :: mem where
  "mem_item = \<lparr>docs = [item_doc], committed = [item_doc], files = [], commit_ok = True\<rparr>"

text \<open>A \<open>DocType\<close> table holding the two mapping doctypes beside an importable one.\<close>

definition cipl_doctypes :: "doctype_row list" where
  "cipl_doctypes =
     [\<lparr>name = ''excel_field_mapping'', module = ''Cipl App'', istable = 0\<rparr>,
      \<lparr>name = ''field_mapping_child'', module = ''Cipl App'', istable = 1\<rparr>,
      \<lparr>name = ''customer_visit'', module = ''Cipl App'', istable = 0\<rparr>,
      \<lparr>name = ''User'', module = ''Core'', istable = 0\<rparr>]"

section \<open>Rounding to binary64\<close>

lemma rhe_floor: "\<lfloor>x\<rfloor> \<le> round_half_even x" "round_half_even x \<le> \<lfloor>x\<rfloor> + 1"
  unfolding round_half_even_def Let_def by auto

lemma rhe_of_int [simp]: "round_half_even (of_int n) = n"
  unfolding round_half_even_def Let_def by simp

lemma rhe_mono:
  assumes "x \<le> y"
  shows "round_half_even x \<le> round_half_even y"
proof (cases "\<lfloor>x\<rfloor> = \<lfloor>y\<rfloor>")
  case True
  then show ?thesis using assms unfolding round_half_even_def Let_def by auto
next
  case False
  with assms have "\<lfloor>x\<rfloor> < \<lfloor>y\<rfloor>"
    by (simp add: floor_mono order.not_eq_order_implies_strict)
  then show ?thesis using rhe_floor(2)[of x] rhe_floor(1)[of y] by linarith
qed

lemma quotient_pos:
  assumes "0 < x" "quotient_of x = (p, q)"
  shows "0 < p" "0 < q" "x = of_int p / of_int q"
proof -
  show q: "0 < q" using assms(2) quotient_of_denom_pos by blast
  show x: "x = of_int p / of_int q" using assms(2) quotient_of_div by blast
  show "0 < p" using assms(1) q x by (simp add: zero_less_divide_iff)
qed

lemma bitlen_powi:
  fixes p :: int
  assumes "0 < p"
  shows "power_int (2::rat) (bitlen p - 1) \<le> of_int p" "(of_int p :: rat) < power_int 2 (bitlen p)"
proof -
  have bp: "bitlen p \<ge> 1" using assms by (auto simp: bitlen_alt_def)
  have p1: "(2::rat) ^ nat (bitlen p - 1) \<le> of_int p"
    using bitlen_bounds[OF assms] by (metis of_int_le_iff of_int_numeral of_int_power)
  have p2: "(of_int p :: rat) < 2 ^ nat (bitlen p)"
    using bitlen_bounds[OF assms] by (metis of_int_less_iff of_int_numeral of_int_power)
  show "power_int (2::rat) (bitlen p - 1) \<le> of_int p" using p1 bp by (simp add: power_int_def)
  show "(of_int p :: rat) < power_int 2 (bitlen p)" using p2 bp by (simp add: power_int_def)
qed

lemma frac_in_binades:
  fixes p q :: int
  assumes "0 < p" "0 < q"
  shows "power_int 2 (bitlen p - bitlen q - 1) \<le> (of_int p / of_int q :: rat)"
    and "(of_int p / of_int q :: rat) < power_int 2 (bitlen p - bitlen q + 1)"
proof -
  note P = bitlen_powi[OF assms(1)] and Q = bitlen_powi[OF assms(2)]
  have qpos: "(0::rat) < of_int q" using assms by simp
  have "power_int 2 (bitlen p - bitlen q - 1) * (of_int q :: rat)
          \<le> power_int 2 (bitlen p - bitlen q - 1) * power_int 2 (bitlen q)"
    using Q(2) by (simp add: mult_left_mono)
  also have "\<dots> = power_int 2 (bitlen p - 1)" by (simp add: power_int_add[symmetric])
  also have "\<dots> \<le> of_int p" by (rule P(1))
  finally show "power_int 2 (bitlen p - bitlen q - 1) \<le> (of_int p / of_int q :: rat)"
    using qpos by (simp add: pos_le_divide_eq)
  have "(of_int p :: rat) < power_int 2 (bitlen p)" by (rule P(2))
  also have "\<dots> = power_int 2 (bitlen p - bitlen q + 1) * power_int 2 (bitlen q - 1)"
    by (simp add: power_int_add[symmetric])
  also have "\<dots> \<le> power_int 2 (bitlen p - bitlen q + 1) * of_int q"
    using Q(1) by (simp add: mult_left_mono)
  finally show "(of_int p / of_int q :: rat) < power_int 2 (bitlen p - bitlen q + 1)"
    using qpos by (simp add: pos_divide_less_eq)
qed

lemma pow2_less_exp: "power_int (2::rat) a < power_int 2 b \<Longrightarrow> a < b"
  using power_int_increasing[of b a "2::rat"] by (cases "a < b") auto

lemma binade_bounds:
  assumes "0 < x"
  shows "power_int 2 (binade x) \<le> x" "x < power_int 2 (binade x + 1)"
proof -
  obtain p q where pq: "quotient_of x = (p, q)" by (cases "quotient_of x")
  note Q = quotient_pos[OF assms pq]
  have F1: "power_int 2 (bitlen p - bitlen q - 1) \<le> x"
    and F2: "x < power_int 2 (bitlen p - bitlen q + 1)"
    using frac_in_binades[OF Q(1) Q(2)] Q(3) by simp_all
  have b: "binade x = (if power_int 2 (bitlen p - bitlen q) \<le> x
                       then bitlen p - bitlen q else bitlen p - bitlen q - 1)"
    by (simp add: binade_def pq Let_def)
  show "power_int 2 (binade x) \<le> x" using F1 by (simp add: b)
  show "x < power_int 2 (binade x + 1)" using F2 by (simp add: b not_le)
qed

lemma binade_mono:
  assumes "0 < x" "x \<le> y"
  shows "binade x \<le> binade y"
proof -
  have y: "0 < y" using assms by simp
  have "power_int (2::rat) (binade x) < power_int 2 (binade y + 1)"
    using binade_bounds(1)[OF assms(1)] binade_bounds(2)[OF y] assms(2) by simp
  then have "binade x < binade y + 1" by (rule pow2_less_exp)
  then show ?thesis by simp
qed

lemma scaled_range:
  assumes "0 < x"
  shows "2 ^ 52 \<le> x / power_int 2 (binade x - 52)" "x / power_int 2 (binade x - 52) < 2 ^ 53"
proof -
  have u: "(0::rat) < power_int 2 (binade x - 52)" by simp
  have "power_int (2::rat) (binade x) = 2 ^ 52 * power_int 2 (binade x - 52)"
    by (simp add: power_int_diff)
  then show "2 ^ 52 \<le> x / power_int 2 (binade x - 52)"
    using binade_bounds(1)[OF assms] u by (simp add: pos_le_divide_eq)
  have "power_int (2::rat) (binade x + 1) = 2 ^ 53 * power_int 2 (binade x - 52)"
    by (simp add: power_int_diff power_int_add)
  then show "x / power_int 2 (binade x - 52) < 2 ^ 53"
    using binade_bounds(2)[OF assms] u by (simp add: pos_divide_less_eq)
qed

lemma rn53_pos_eq:
  "0 < x \<Longrightarrow>
   rn53 x = of_int (round_half_even (x / power_int 2 (binade x - 52))) * power_int 2 (binade x - 52)"
  by (simp add: rn53_def Let_def)

lemma rn53_range:
  assumes "0 < x"
  shows "power_int 2 (binade x) \<le> rn53 x" "rn53 x \<le> power_int 2 (binade x + 1)"
proof -
  let ?u = "power_int (2::rat) (binade x - 52)"
  let ?m = "round_half_even (x / ?u)"
  have u: "0 < ?u" by simp
  have "round_half_even (of_int (2 ^ 52)) \<le> ?m"
    by (rule rhe_mono) (use scaled_range(1)[OF assms] in simp)
  then have lo: "(2::rat) ^ 52 \<le> of_int ?m" unfolding rhe_of_int
    by (metis of_int_le_iff of_int_numeral of_int_power)
  have "?m \<le> round_half_even (of_int (2 ^ 53))"
    by (rule rhe_mono) (use scaled_range(2)[OF assms] in simp)
  then have hi: "of_int ?m \<le> (2::rat) ^ 53" unfolding rhe_of_int
    by (metis of_int_le_iff of_int_numeral of_int_power)
  have e1: "power_int (2::rat) (binade x) = 2 ^ 52 * ?u" by (simp add: power_int_diff)
  have e2: "power_int (2::rat) (binade x + 1) = 2 ^ 53 * ?u"
    by (simp add: power_int_diff power_int_add)
  show "power_int 2 (binade x) \<le> rn53 x"
    unfolding rn53_pos_eq[OF assms] e1 using lo u by (simp add: mult_right_mono)
  show "rn53 x \<le> power_int 2 (binade x + 1)"
    unfolding rn53_pos_eq[OF assms] e2 using hi u by (simp add: mult_right_mono)
qed

lemma rn53_0: "rn53 0 = 0"
  by (simp add: rn53_def)

lemma rn53_mono:
  assumes "0 \<le> x" "x \<le> y"
  shows "rn53 x \<le> rn53 y"
proof (cases "x = 0")
  case True
  show ?thesis
  proof (cases "y = 0")
    case True
    with \<open>x = 0\<close> show ?thesis by simp
  next
    case False
    then have "0 < y" using assms True by simp
    then have "0 < rn53 y" using rn53_range(1)[of y]
      by (meson less_le_trans zero_less_numeral zero_less_power_int)
    then show ?thesis using True by (simp add: rn53_0)
  qed
next
  case False
  then have x: "0 < x" using assms by simp
  then have y: "0 < y" using assms by simp
  show ?thesis
  proof (cases "binade x = binade y")
    case True
    let ?u = "power_int (2::rat) (binade y - 52)"
    have "x / ?u \<le> y / ?u" using assms(2) by (simp add: divide_right_mono)
    then have "round_half_even (x / ?u) \<le> round_half_even (y / ?u)" by (rule rhe_mono)
    then have "(of_int (round_half_even (x / ?u)) :: rat) * ?u
                 \<le> of_int (round_half_even (y / ?u)) * ?u"
      by (simp add: mult_right_mono)
    then show ?thesis unfolding rn53_pos_eq[OF x] rn53_pos_eq[OF y] True .
  next
    case False
    then have "binade x + 1 \<le> binade y" using binade_mono[OF x assms(2)] by simp
    then have "power_int (2::rat) (binade x + 1) \<le> power_int 2 (binade y)"
      by (simp add: power_int_increasing)
    then show ?thesis using rn53_range(2)[OF x] rn53_range(1)[OF y] by linarith
  qed
qed

lemma rn53_nonneg: "0 \<le> x \<Longrightarrow> 0 \<le> rn53 x"
  using rn53_mono[of 0 x] by (simp add: rn53_0)

lemma rn53_1: "rn53 1 = 1"
  by code_simp

lemma rn53_100: "rn53 100 = 100"
  by code_simp

lemma py_truediv_nonneg: "0 \<le> a \<Longrightarrow> 0 \<le> b \<Longrightarrow> 0 \<le> py_truediv a b"
  unfolding py_truediv_def by (rule rn53_nonneg) simp

lemma py_truediv_mono:
  "0 \<le> a \<Longrightarrow> a \<le> a' \<Longrightarrow> 0 \<le> b \<Longrightarrow> py_truediv a b \<le> py_truediv a' b"
  unfolding py_truediv_def by (rule rn53_mono) (simp_all add: divide_right_mono)

lemma py_truediv_self: "0 < b \<Longrightarrow> py_truediv b b = 1"
  unfolding py_truediv_def by (simp add: rn53_1)

lemma py_fmul_nonneg: "0 \<le> x \<Longrightarrow> 0 \<le> y \<Longrightarrow> 0 \<le> py_fmul x y"
  unfolding py_fmul_def by (rule rn53_nonneg) simp

lemma py_fmul_mono: "0 \<le> x \<Longrightarrow> x \<le> x' \<Longrightarrow> 0 \<le> y \<Longrightarrow> py_fmul x y \<le> py_fmul x' y"
  unfolding py_fmul_def by (rule rn53_mono) (simp_all add: mult_right_mono)

lemma py_int_mono:
  assumes "x \<le> y"
  shows "py_int x \<le> py_int y"
proof (cases "0 \<le> x")
  case True
  then show ?thesis using assms by (simp add: py_int_def floor_mono)
next
  case False
  then have cx: "\<lceil>x\<rceil> \<le> 0" by (simp add: ceiling_le_zero)
  show ?thesis
  proof (cases "0 \<le> y")
    case True
    then have fy: "0 \<le> \<lfloor>y\<rfloor>" by simp
    have "py_int x = \<lceil>x\<rceil>" "py_int y = \<lfloor>y\<rfloor>"
      using False True by (simp_all add: py_int_def)
    then show ?thesis using cx fy by linarith
  next
    case False
    then show ?thesis using assms \<open>\<not> 0 \<le> x\<close> by (simp add: py_int_def ceiling_mono)
  qed
qed

lemma progress_percent_mono:
  assumes "i \<le> j"
  shows "progress_percent i n \<le> progress_percent j n"
  unfolding progress_percent_def
  using assms by (intro py_int_mono py_fmul_mono py_truediv_mono py_truediv_nonneg) simp_all

lemma progress_percent_last: "0 < n \<Longrightarrow> progress_percent (n - 1) n = 100"
proof -
  assume n: "0 < n"
  then have "int (n - 1) + 1 = int n" by simp
  then show ?thesis using n
    by (simp add: progress_percent_def py_truediv_self py_fmul_def rn53_100 py_int_def)
qed

lemma progress_percent_nonneg: "0 \<le> progress_percent i n"
proof -
  have "0 \<le> py_fmul (py_truediv (int i + 1) (int n)) 100"
    by (intro py_fmul_nonneg py_truediv_nonneg) simp_all
  then show ?thesis unfolding progress_percent_def py_int_def by simp
qed

lemma progress_percent_le_100: "i < n \<Longrightarrow> progress_percent i n \<le> 100"
  using progress_percent_mono[of i "n - 1" n] progress_percent_last[of n] by simp

text \<open>
  The progress of a row is not always the exact floor of the percentage: row 290 of 1000
  reports 28, because \<open>0.29 * 100\<close> rounds below 29.
\<close>

lemma progress_percent_290_of_1000:
  "progress_percent 289 1000 = 28 \<and> \<lfloor>((289 + 1) / 1000 :: rat) * 100\<rfloor> = 29"
  by code_simp

section \<open>The preview partitions the mapping\<close>

lemma missing_fields_loop_filter:
  "missing_fields_loop fm cols acc = acc @ filter (\<lambda>c. \<not> dict_has fm c) cols"
  by (induction cols arbitrary: acc) simp_all

lemma mapped_fields_loop_filter:
  "mapped_fields_loop cols ks acc = acc @ filter (\<lambda>k. k \<in> set cols) ks"
  by (induction ks arbitrary: acc) simp_all

lemma missing_in_excel_loop_filter:
  "missing_in_excel_loop cols ks acc = acc @ filter (\<lambda>k. k \<notin> set cols) ks"
  by (induction ks arbitrary: acc) simp_all

lemma dict_has_keys: "dict_has d k \<longleftrightarrow> k \<in> set (dict_keys d)"
  by (simp add: dict_has_def dict_keys_def map_of_eq_None_iff)

text \<open>
  Claim C3. For every mapping \<open>M\<close> and header list \<open>H\<close>, the mapped fields and the
  fields missing in Excel are disjoint and together are the keys of \<open>M\<close>; the missing
  fields are the columns of \<open>H\<close> that are not keys of \<open>M\<close>, in header order;
  \<open>has_missing\<close> holds iff one of the two missing lists is non-empty. The preview returns
  this result whenever the file resolves, the mapping is non-empty and the header is read.
\<close>

theorem preview_partition:
  "set (mapped_fields (preview_body M H)) \<union> set (missing_in_excel (preview_body M H))
     = set (dict_keys M)
   \<and> set (mapped_fields (preview_body M H)) \<inter> set (missing_in_excel (preview_body M H)) = {}
   \<and> missing_fields (preview_body M H) = filter (\<lambda>c. c \<notin> set (dict_keys M)) H
   \<and> set (missing_fields (preview_body M H)) = set H - set (dict_keys M)
   \<and> (has_missing (preview_body M H) \<longleftrightarrow>
        missing_fields (preview_body M H) \<noteq> [] \<or> missing_in_excel (preview_body M H) \<noteq> [])
   \<and> validate_import_preview dt (Inr path) M (Inr H) =
       (if M = [] then PreviewError (''No field mappings found for '' @ dt)
        else PreviewSuccess (preview_body M H))"
proof -
  have mf: "missing_fields (preview_body M H) = filter (\<lambda>c. c \<notin> set (dict_keys M)) H"
    by (simp add: preview_body_def Let_def missing_fields_loop_filter dict_has_keys)
  have mp: "mapped_fields (preview_body M H) = filter (\<lambda>k. k \<in> set H) (dict_keys M)"
    by (simp add: preview_body_def Let_def mapped_fields_loop_filter)
  have me: "missing_in_excel (preview_body M H) = filter (\<lambda>k. k \<notin> set H) (dict_keys M)"
    by (simp add: preview_body_def Let_def missing_in_excel_loop_filter)
  have hm: "has_missing (preview_body M H) \<longleftrightarrow>
        missing_fields (preview_body M H) \<noteq> [] \<or> missing_in_excel (preview_body M H) \<noteq> []"
    by (simp add: preview_body_def Let_def)
  have v: "validate_import_preview dt (Inr path) M (Inr H) =
       (if M = [] then PreviewError (''No field mappings found for '' @ dt)
        else PreviewSuccess (preview_body M H))"
    by (simp add: validate_import_preview_def)
  have u: "set (filter (\<lambda>k. k \<in> set H) (dict_keys M)) \<union> set (filter (\<lambda>k. k \<notin> set H) (dict_keys M))
             = set (dict_keys M)" by auto
  have i: "set (filter (\<lambda>k. k \<in> set H) (dict_keys M)) \<inter> set (filter (\<lambda>k. k \<notin> set H) (dict_keys M)) = {}"
    by auto
  have d: "set (filter (\<lambda>c. c \<notin> set (dict_keys M)) H) = set H - set (dict_keys M)" by auto
  show ?thesis unfolding mp me mf using u i d hm[unfolded mf me] v by blast
qed

text \<open>
  The mapping of the scenarios against the header \<open>Name, Phone\<close>.
\<close>

theorem preview_partition_witness:
  "mapped_fields (preview_body [(''Name'', ''title''), (''Email'', ''email_addr'')] [''Name'', ''Phone'']) = [''Name'']
   \<and> missing_in_excel (preview_body [(''Name'', ''title''), (''Email'', ''email_addr'')] [''Name'', ''Phone'']) = [''Email'']
   \<and> missing_fields (preview_body [(''Name'', ''title''), (''Email'', ''email_addr'')] [''Name'', ''Phone'']) = [''Phone'']
   \<and> has_missing (preview_body [(''Name'', ''title''), (''Email'', ''email_addr'')] [''Name'', ''Phone''])
   \<and> set [''Name''] \<union> set [''Email''] = set (dict_keys [(''Name'', ''title''), (''Email'', ''email_addr'')])"
proof -
  let ?M = "[(''Name'', ''title''), (''Email'', ''email_addr'')]"
  let ?H = "[''Name'', ''Phone'']"
  have a: "mapped_fields (preview_body ?M ?H) = [''Name'']" by code_simp
  have b: "missing_in_excel (preview_body ?M ?H) = [''Email'']" by code_simp
  have c: "missing_fields (preview_body ?M ?H) = [''Phone'']" by code_simp
  show ?thesis using preview_partition[of ?M ?H] unfolding a b c by simp
qed

section \<open>The action taken for a row\<close>

lemma report_progress_counts [simp]:
  "created_count (report_progress t i st) = created_count st"
  "updated_count (report_progress t i st) = updated_count st"
  "skipped_count (report_progress t i st) = skipped_count st"
  "error_count (report_progress t i st) = error_count st"
  "success_count (report_progress t i st) = success_count st"
  "db (report_progress t i st) = db st"
  "error_log (report_progress t i st) = error_log st"
  by (simp_all add: report_progress_def publish_progress_def)

lemma find_existing_reads_only:
  "find_existing (S\<lparr>get_doc := gd, doc_save := sv, doc_insert := ins\<rparr>) P uv s =
     find_existing S P uv s"
  by (simp add: find_existing_def split: option.splits)

text \<open>
  Claim C1. A row whose lookup returned \<open>existing_doc\<close> follows the four-way table. An
  existing record is found when the lookup returns a name, which is a non-empty string and
  so truthy. Found and \<open>allow_update\<close> set: the record is fetched, the draft is written
  onto it and it is saved; when both return, the update and success counters go up. Found
  and \<open>allow_update\<close> clear: only the skip counter goes up and the store is left as the
  lookup left it, whatever \<open>allow_create\<close> is, so nothing is created. Not found and
  \<open>allow_create\<close> set: the draft is inserted; when that returns, the create and success
  counters go up. Not found and \<open>allow_create\<close> clear: only the skip counter goes up.
  In both skipping cases the row does the same whatever \<open>get_doc\<close>, \<open>doc_save\<close> and
  \<open>doc_insert\<close> are: none of them is called.
\<close>

theorem reconciliation_table:
  assumes "row_draft P excel_columns row = (doc_data, unique_value)"
      and "find_existing S P unique_value (db st) = (Inr existing_doc, s1)"
  shows
    "(truthy existing_doc \<and> allow_update P \<noteq> 0
        \<and> get_doc S (doctype_name P) existing_doc s1 = (Inr doc, s2)
        \<and> doc_save S (set_fields doc doc_data) s2 = (None, s3)
      \<longrightarrow> process_row S P excel_columns total_rows idx row st =
            (None, report_progress total_rows idx
                     (st\<lparr>db := s3, updated_count := updated_count st + 1,
                          success_count := success_count st + 1\<rparr>)))
   \<and> (truthy existing_doc \<and> allow_update P = 0
      \<longrightarrow> process_row S P excel_columns total_rows idx row st =
            (None, report_progress total_rows idx
                     (st\<lparr>db := s1, skipped_count := skipped_count st + 1\<rparr>)))
   \<and> (\<not> truthy existing_doc \<and> allow_create P \<noteq> 0
        \<and> doc_insert S doc_data s1 = (None, s2)
      \<longrightarrow> process_row S P excel_columns total_rows idx row st =
            (None, report_progress total_rows idx
                     (st\<lparr>db := s2, created_count := created_count st + 1,
                          success_count := success_count st + 1\<rparr>)))
   \<and> (\<not> truthy existing_doc \<and> allow_create P = 0
      \<longrightarrow> process_row S P excel_columns total_rows idx row st =
            (None, report_progress total_rows idx
                     (st\<lparr>db := s1, skipped_count := skipped_count st + 1\<rparr>)))
   \<and> ((truthy existing_doc \<and> allow_update P = 0) \<or> (\<not> truthy existing_doc \<and> allow_create P = 0)
      \<longrightarrow> process_row (S\<lparr>get_doc := gd, doc_save := sv, doc_insert := ins\<rparr>) P excel_columns
              total_rows idx row st =
            process_row S P excel_columns total_rows idx row st)"
  using assms by (auto simp: process_row_def reconcile_def find_existing_reads_only)

text \<open>
  The four rows of the table on the in-memory store, for the row of Alice.
\<close>

theorem reconciliation_table_witness:
  "truthy (PStr ''DOC-1'') \<and> \<not> truthy PNone
   \<and> find_existing (mem_store []) (contact_params 1 0) (PStr ''a@x.com'') mem_alice
       = (Inr (PStr ''DOC-1''), mem_alice)
   \<and> find_existing (mem_store []) (contact_params 1 0) (PStr ''a@x.com'') mem_empty
       = (Inr PNone, mem_empty)
   \<and> counters (snd (process_row (mem_store []) (contact_params 1 1) contact_columns 2 0 alice_row
                      (start_run (mem_store []) (contact_params 1 1) mem_alice))) = (0, 1, 0, 0)
   \<and> docs (db (snd (process_row (mem_store []) (contact_params 1 1) contact_columns 2 0 alice_row
                      (start_run (mem_store []) (contact_params 1 1) mem_alice)))) = [alice_updated]
   \<and> counters (snd (process_row (mem_store []) (contact_params 1 0) contact_columns 2 0 alice_row
                      (start_run (mem_store []) (contact_params 1 0) mem_alice))) = (0, 0, 1, 0)
   \<and> docs (db (snd (process_row (mem_store []) (contact_params 1 0) contact_columns 2 0 alice_row
                      (start_run (mem_store []) (contact_params 1 0) mem_alice)))) = [alice_doc]
   \<and> counters (snd (process_row (mem_store []) (contact_params 1 0) contact_columns 2 0 alice_row
                      (start_run (mem_store []) (contact_params 1 0) mem_empty))) = (1, 0, 0, 0)
   \<and> docs (db (snd (process_row (mem_store []) (contact_params 1 0) contact_columns 2 0 alice_row
                      (start_run (mem_store []) (contact_params 1 0) mem_empty))))
       = [alice_draft @ [(''name'', PStr ''DOC-1'')]]
   \<and> counters (snd (process_row (mem_store []) (contact_params 0 1) contact_columns 2 0 alice_row
                      (start_run (mem_store []) (contact_params 0 1) mem_empty))) = (0, 0, 1, 0)
   \<and> docs (db (snd (process_row (mem_store []) (contact_params 0 1) contact_columns 2 0 alice_row
                      (start_run (mem_store []) (contact_params 0 1) mem_empty)))) = []"
proof -
  let ?S = "mem_store []"
  let ?uv = "PStr ''a@x.com''"
  have d: "row_draft (contact_params c u) contact_columns alice_row = (alice_draft, ?uv)" for c u
    by (simp add: row_draft_def contact_params_def contact_columns_def alice_row_def
                  alice_draft_def Let_def)
  have db: "db (start_run ?S P m) = m" for P m
    by (simp add: start_run_def mem_store_def)
  have fa: "find_existing ?S (contact_params c u) ?uv mem_alice = (Inr (PStr ''DOC-1''), mem_alice)"
    for c u
    by (simp add: find_existing_def contact_params_def mem_store_def lookup_field_def
                  mem_alice_def mem_empty_def alice_doc_def doc_matches_def)
  have fe: "find_existing ?S (contact_params c u) ?uv mem_empty = (Inr PNone, mem_empty)" for c u
    by (simp add: find_existing_def contact_params_def mem_store_def lookup_field_def
                  mem_empty_def)
  have fl: "allow_create (contact_params c u) = c" "allow_update (contact_params c u) = u"
           "doctype_name (contact_params c u) = ''Contact''" for c u
    by (simp_all add: contact_params_def)
  have gd: "get_doc ?S ''Contact'' (PStr ''DOC-1'') mem_alice = (Inr alice_doc, mem_alice)"
    by code_simp
  have sv: "doc_save ?S (set_fields alice_doc alice_draft) mem_alice
              = (None, mem_alice\<lparr>docs := [alice_updated]\<rparr>)"
    by code_simp
  have ins: "doc_insert ?S alice_draft mem_empty
              = (None, mem_empty\<lparr>docs := [alice_draft @ [(''name'', PStr ''DOC-1'')]]\<rparr>)"
    by code_simp
  have c0: "counters (start_run ?S P m) = (0, 0, 0, 0)" for P m
    by (simp add: counters_def start_run_def)
  have upd: "process_row ?S (contact_params 1 1) contact_columns 2 0 alice_row
               (start_run ?S (contact_params 1 1) mem_alice) =
             (None, report_progress 2 0
                ((start_run ?S (contact_params 1 1) mem_alice)
                   \<lparr>db := mem_alice\<lparr>docs := [alice_updated]\<rparr>,
                    updated_count := updated_count (start_run ?S (contact_params 1 1) mem_alice) + 1,
                    success_count := success_count (start_run ?S (contact_params 1 1) mem_alice) + 1\<rparr>))"
    using reconciliation_table[where S = ?S and P = "contact_params 1 1"
            and st = "start_run ?S (contact_params 1 1) mem_alice"
            and existing_doc = "PStr ''DOC-1''" and ?s1.0 = mem_alice and doc = alice_doc
            and ?s2.0 = mem_alice and ?s3.0 = "mem_alice\<lparr>docs := [alice_updated]\<rparr>"
            and total_rows = 2 and idx = 0, OF d]
          fa gd sv
    by (simp add: db fl)
  have skp: "process_row ?S (contact_params 1 0) contact_columns 2 0 alice_row
               (start_run ?S (contact_params 1 0) mem_alice) =
             (None, report_progress 2 0
                ((start_run ?S (contact_params 1 0) mem_alice)
                   \<lparr>db := mem_alice,
                    skipped_count := skipped_count (start_run ?S (contact_params 1 0) mem_alice) + 1\<rparr>))"
    using reconciliation_table[where S = ?S and P = "contact_params 1 0"
            and st = "start_run ?S (contact_params 1 0) mem_alice"
            and existing_doc = "PStr ''DOC-1''" and ?s1.0 = mem_alice
            and total_rows = 2 and idx = 0, OF d]
          fa
    by (simp add: db fl)
  have crt: "process_row ?S (contact_params 1 0) contact_columns 2 0 alice_row
               (start_run ?S (contact_params 1 0) mem_empty) =
             (None, report_progress 2 0
                ((start_run ?S (contact_params 1 0) mem_empty)
                   \<lparr>db := mem_empty\<lparr>docs := [alice_draft @ [(''name'', PStr ''DOC-1'')]]\<rparr>,
                    created_count := created_count (start_run ?S (contact_params 1 0) mem_empty) + 1,
                    success_count := success_count (start_run ?S (contact_params 1 0) mem_empty) + 1\<rparr>))"
    using reconciliation_table[where S = ?S and P = "contact_params 1 0"
            and st = "start_run ?S (contact_params 1 0) mem_empty"
            and existing_doc = PNone and ?s1.0 = mem_empty
            and ?s2.0 = "mem_empty\<lparr>docs := [alice_draft @ [(''name'', PStr ''DOC-1'')]]\<rparr>"
            and total_rows = 2 and idx = 0, OF d]
          fe ins
    by (simp add: db fl)
  have skc: "process_row ?S (contact_params 0 1) contact_columns 2 0 alice_row
               (start_run ?S (contact_params 0 1) mem_empty) =
             (None, report_progress 2 0
                ((start_run ?S (contact_params 0 1) mem_empty)
                   \<lparr>db := mem_empty,
                    skipped_count := skipped_count (start_run ?S (contact_params 0 1) mem_empty) + 1\<rparr>))"
    using reconciliation_table[where S = ?S and P = "contact_params 0 1"
            and st = "start_run ?S (contact_params 0 1) mem_empty"
            and existing_doc = PNone and ?s1.0 = mem_empty
            and total_rows = 2 and idx = 0, OF d]
          fe
    by (simp add: db fl)
  have e: "docs mem_alice = [alice_doc]" "docs mem_empty = []"
    by (simp_all add: mem_alice_def mem_empty_def)
  show ?thesis
    unfolding upd skp crt skc
    using fa[of 1 0] fe[of 1 0] e
    by (simp add: counters_def start_run_def)
qed

text \<open>
  Claim C4. The lookup is guarded by \<open>if unique_field and unique_value\<close>, which tests
  truthiness. A row whose unique value is the integer 0 is not null, and the store holds a
  record with that value, yet no lookup is made: the row counts as new and a second record
  with code 0 is inserted.
\<close>

theorem falsy_unique_value_skips_lookup:
  "row_draft item_params [''Code'', ''Label''] item_row =
     ([(''doctype'', PStr ''Item''), (''code'', PInt 0), (''label'', PStr ''Spare part'')], PInt 0)
   \<and> PInt 0 \<noteq> PNone
   \<and> db_get_value (mem_store []) ''Item'' (''code'', PInt 0) ''name'' mem_item
       = (Inr (PStr ''DOC-1''), mem_item)
   \<and> find_existing (mem_store []) item_params (PInt 0) mem_item = (Inr PNone, mem_item)
   \<and> docs (db (process_excel_import (mem_store []) item_params
                  (Inr \<lparr>columns = [''Code'', ''Label''], rows = [item_row]\<rparr>) mem_item)) =
       [item_doc,
        [(''doctype'', PStr ''Item''), (''code'', PInt 0), (''label'', PStr ''Spare part''),
         (''name'', PStr ''DOC-2'')]]
   \<and> counters (process_excel_import (mem_store []) item_params
                  (Inr \<lparr>columns = [''Code'', ''Label''], rows = [item_row]\<rparr>) mem_item) = (1, 0, 0, 0)"
  by code_simp

section \<open>Updating an existing record\<close>

lemma map_of_set_fields:
  "distinct (map fst items) \<Longrightarrow>
   map_of (set_fields doc items) f =
     (case map_of items f of
        None \<Rightarrow> map_of doc f
      | Some v \<Rightarrow> if f = ''doctype'' then map_of doc f else Some v)"
proof (induction items arbitrary: doc)
  case Nil
  then show ?case by simp
next
  case (Cons kv items)
  obtain k v where kv: "kv = (k, v)" by (cases kv)
  from Cons.prems kv have d: "distinct (map fst items)" and nk: "k \<notin> fst ` set items" by auto
  from nk have none: "map_of items k = None" by (simp add: map_of_eq_None_iff)
  show ?case
    using Cons.IH[OF d] none kv
    by (auto simp: update_conv' split: option.splits)
qed

lemma map_row_distinct:
  "distinct (map fst (fst acc)) \<Longrightarrow> distinct (map fst (fst (map_row row cols uf items acc)))"
proof (induction items arbitrary: acc)
  case Nil
  then show ?case by simp
next
  case (Cons kv items)
  obtain k v where kv: "kv = (k, v)" by (cases kv)
  obtain d u where acc: "acc = (d, u)" by (cases acc)
  show ?case unfolding kv acc
    apply (simp only: map_row.simps)
    apply (rule Cons.IH)
    using Cons.prems acc by (simp add: Let_def distinct_update)
qed

lemma row_draft_distinct: "distinct (map fst (fst (row_draft P cols row)))"
  unfolding row_draft_def by (rule map_row_distinct) simp

text \<open>
  Claim C8, amended. When a row updates an existing record (the lookup found it,
  \<open>allow_update\<close> is set and the record was fetched), the document handed to \<open>save\<close> is
  the fetched record with the draft written onto it, and the row's outcome is that of
  this one \<open>save\<close>. In that document every field of the draft other than the key
  \<open>doctype\<close> has the draft's value; the field \<open>doctype\<close> and every field absent from the
  draft keep the record's value. The draft is never inserted on this path.
\<close>

theorem update_is_partial:
  assumes "row_draft P excel_columns row = (doc_data, unique_value)"
      and "find_existing S P unique_value (db st) = (Inr existing_doc, s1)"
      and "truthy existing_doc" and "allow_update P \<noteq> 0"
      and "get_doc S (doctype_name P) existing_doc s1 = (Inr doc, s2)"
  shows "process_row S P excel_columns total_rows idx row st =
           (case doc_save S (set_fields doc doc_data) s2 of
              (Some e, s3) \<Rightarrow> (Some e, st\<lparr>db := s3\<rparr>)
            | (None, s3) \<Rightarrow>
                (None, report_progress total_rows idx
                         (st\<lparr>db := s3, updated_count := updated_count st + 1,
                              success_count := success_count st + 1\<rparr>)))
       \<and> map_of (set_fields doc doc_data) f =
           (case map_of doc_data f of
              None \<Rightarrow> map_of doc f
            | Some v \<Rightarrow> if f = ''doctype'' then map_of doc f else Some v)
       \<and> process_row (S\<lparr>doc_insert := ins\<rparr>) P excel_columns total_rows idx row st =
           process_row S P excel_columns total_rows idx row st"
proof -
  have "distinct (map fst doc_data)" using row_draft_distinct[of P excel_columns row] assms(1) by simp
  then have m: "map_of (set_fields doc doc_data) f =
           (case map_of doc_data f of
              None \<Rightarrow> map_of doc f
            | Some v \<Rightarrow> if f = ''doctype'' then map_of doc f else Some v)"
    by (rule map_of_set_fields)
  have "find_existing (S\<lparr>doc_insert := ins\<rparr>) P unique_value (db st) =
          find_existing S P unique_value (db st)"
    by (simp add: find_existing_def split: option.splits)
  then have fe: "find_existing (S\<lparr>doc_insert := ins\<rparr>) P unique_value (db st) = (Inr existing_doc, s1)"
    using assms(2) by simp
  have p: "process_row S P excel_columns total_rows idx row st =
           (case doc_save S (set_fields doc doc_data) s2 of
              (Some e, s3) \<Rightarrow> (Some e, st\<lparr>db := s3\<rparr>)
            | (None, s3) \<Rightarrow>
                (None, report_progress total_rows idx
                         (st\<lparr>db := s3, updated_count := updated_count st + 1,
                              success_count := success_count st + 1\<rparr>)))"
    using assms by (auto simp: process_row_def reconcile_def split: prod.splits option.splits)
  have q: "process_row (S\<lparr>doc_insert := ins\<rparr>) P excel_columns total_rows idx row st =
           process_row S P excel_columns total_rows idx row st"
    using assms(1,3,4,5) assms(2) fe
    by (auto simp: process_row_def reconcile_def split: prod.splits option.splits)
  show ?thesis using p m q by blast
qed

text \<open>
  The row of Alice against her stored contact: the title is overwritten, the phone number
  and the doctype are kept, and the store holds the merged document.
\<close>

theorem update_is_partial_witness:
  "row_draft (contact_params 1 1) contact_columns alice_row = (alice_draft, PStr ''a@x.com'')
   \<and> find_existing (mem_store []) (contact_params 1 1) (PStr ''a@x.com'')
        (db (start_run (mem_store []) (contact_params 1 1) mem_alice)) = (Inr (PStr ''DOC-1''), mem_alice)
   \<and> truthy (PStr ''DOC-1'') \<and> allow_update (contact_params 1 1) \<noteq> 0
   \<and> get_doc (mem_store []) (doctype_name (contact_params 1 1)) (PStr ''DOC-1'') mem_alice
       = (Inr alice_doc, mem_alice)
   \<and> set_fields alice_doc alice_draft = alice_updated
   \<and> docs (db (snd (process_row (mem_store []) (contact_params 1 1) contact_columns 2 0 alice_row
                      (start_run (mem_store []) (contact_params 1 1) mem_alice)))) = [alice_updated]
   \<and> map_of alice_updated ''title'' = Some (PStr ''Alice'')
   \<and> map_of alice_updated ''phone'' = map_of alice_doc ''phone''
   \<and> map_of alice_updated ''phone'' = Some (PStr ''555-0100'')
   \<and> map_of alice_updated ''doctype'' = map_of alice_doc ''doctype''"
proof -
  let ?S = "mem_store []" and ?P = "contact_params 1 1"
  let ?st = "start_run ?S ?P mem_alice"
  have d: "row_draft ?P contact_columns alice_row = (alice_draft, PStr ''a@x.com'')"
    by code_simp
  have f: "find_existing ?S ?P (PStr ''a@x.com'') (db ?st) = (Inr (PStr ''DOC-1''), mem_alice)"
    by code_simp
  have t: "truthy (PStr ''DOC-1'')" by simp
  have u: "allow_update ?P \<noteq> 0" by (simp add: contact_params_def)
  have g: "get_doc ?S (doctype_name ?P) (PStr ''DOC-1'') mem_alice = (Inr alice_doc, mem_alice)"
    by code_simp
  have sf: "set_fields alice_doc alice_draft = alice_updated" by code_simp
  have sv: "doc_save ?S alice_updated mem_alice = (None, mem_alice\<lparr>docs := [alice_updated]\<rparr>)"
    by code_simp
  note U = update_is_partial[OF d f t u g, where total_rows = 2 and idx = 0]
  have pr: "process_row ?S ?P contact_columns 2 0 alice_row ?st =
              (None, report_progress 2 0
                 (?st\<lparr>db := mem_alice\<lparr>docs := [alice_updated]\<rparr>,
                      updated_count := updated_count ?st + 1,
                      success_count := success_count ?st + 1\<rparr>))"
    using U[of "''title''", THEN conjunct1, unfolded sf sv] by simp
  have dd: "docs (db (snd (process_row ?S ?P contact_columns 2 0 alice_row ?st))) = [alice_updated]"
    unfolding pr by simp
  have m1: "map_of alice_updated ''title'' = Some (PStr ''Alice'')"
    using U[of "''title''", THEN conjunct2, THEN conjunct1, unfolded sf]
    by (simp add: alice_draft_def)
  have m2: "map_of alice_updated ''phone'' = map_of alice_doc ''phone''"
    using U[of "''phone''", THEN conjunct2, THEN conjunct1, unfolded sf]
    by (simp add: alice_draft_def)
  have m3: "map_of alice_updated ''doctype'' = map_of alice_doc ''doctype''"
    using U[of "''doctype''", THEN conjunct2, THEN conjunct1, unfolded sf]
    by (simp add: alice_draft_def)
  have p: "map_of alice_doc ''phone'' = Some (PStr ''555-0100'')" by (simp add: alice_doc_def)
  show ?thesis using d f t u g sf dd m1 m2 m3 p by simp
qed

text \<open>
  Claim C8 as stated fails for a draft field named \<open>doctype\<close>: the mapping sends the
  column \<open>Kind\<close> to it, the draft holds \<open>Lead\<close> there, the row matches the stored
  contact, and the contact keeps \<open>Contact\<close>.
\<close>

theorem update_overwrites_counterexample:
  "map_of (fst (row_draft kind_params [''Kind'', ''Email''] kind_row)) ''doctype'' = Some (PStr ''Lead'')
   \<and> map_of (set_fields alice_doc (fst (row_draft kind_params [''Kind'', ''Email''] kind_row))) ''doctype''
       = Some (PStr ''Contact'')
   \<and> map_of (set_fields alice_doc (fst (row_draft kind_params [''Kind'', ''Email''] kind_row))) ''doctype''
       \<noteq> map_of (fst (row_draft kind_params [''Kind'', ''Email''] kind_row)) ''doctype''
   \<and> snd (row_draft kind_params [''Kind'', ''Email''] kind_row) = PStr ''a@x.com''
   \<and> find_existing (mem_store []) kind_params (PStr ''a@x.com'') mem_alice = (Inr (PStr ''DOC-1''), mem_alice)
   \<and> docs (db (snd (process_row (mem_store []) kind_params [''Kind'', ''Email''] 1 0 kind_row
                      (start_run (mem_store []) kind_params mem_alice)))) = [alice_doc]"
  by code_simp

section \<open>Every row is counted once\<close>

lemma reconcile_counts:
  assumes "reconcile S P d x st = (r, st')"
  shows "(r = None \<longrightarrow> (\<exists>out \<in> {Created, Updated, Skipped}. counters st' = bump out st))
       \<and> (r \<noteq> None \<longrightarrow> counters st' = counters st)"
  using assms
  by (auto simp: reconcile_def counters_def bump_def split: if_splits prod.splits sum.splits option.splits)

lemma process_row_counts:
  assumes "process_row S P cols t i row st = (r, st')"
  shows "(r = None \<longrightarrow> (\<exists>out \<in> {Created, Updated, Skipped}. counters st' = bump out st))
       \<and> (r \<noteq> None \<longrightarrow> counters st' = counters st)"
proof -
  obtain d uv where dr: "row_draft P cols row = (d, uv)" by (cases "row_draft P cols row")
  obtain x s1 where fe: "find_existing S P uv (db st) = (x, s1)" by (cases "find_existing S P uv (db st)")
  show ?thesis
  proof (cases x)
    case (Inl e)
    then show ?thesis using assms dr fe by (auto simp: process_row_def counters_def)
  next
    case (Inr ex)
    obtain r2 st2 where rc: "reconcile S P d ex (st\<lparr>db := s1\<rparr>) = (r2, st2)"
      by (cases "reconcile S P d ex (st\<lparr>db := s1\<rparr>)")
    from reconcile_counts[OF rc] show ?thesis
      using assms dr fe Inr rc
      by (cases r2) (auto simp: process_row_def counters_def bump_def)
  qed
qed

lemma log_error_counts [simp]:
  "counters (log_error m t st) = counters st"
  by (simp add: log_error_def counters_def)

lemma row_step_counts:
  "\<exists>out. counters (rows_loop S P cols t i [row] st) = bump out st"
proof -
  obtain r st' where pr: "process_row S P cols t i row st = (r, st')"
    by (cases "process_row S P cols t i row st")
  show ?thesis
  proof (cases r)
    case None
    with process_row_counts[OF pr] pr show ?thesis by auto
  next
    case (Some e)
    with process_row_counts[OF pr] have "counters st' = counters st" by simp
    then have "counters (rows_loop S P cols t i [row] st) = bump Errored st"
      using pr Some by (simp add: counters_def bump_def log_error_def)
    then show ?thesis ..
  qed
qed

lemma rows_loop_append:
  "rows_loop S P cols t i (xs @ ys) st =
     rows_loop S P cols t (i + length xs) ys (rows_loop S P cols t i xs st)"
  by (induction xs arbitrary: i st) (auto split: prod.splits option.splits)

lemma counted_bump: "counters st' = bump out st \<Longrightarrow> counted st' = counted st + 1"
  by (cases out) (auto simp: counters_def bump_def counted_def)

lemma rows_loop_counted:
  "counted (rows_loop S P cols t i rs st) = counted st + length rs"
proof (induction rs arbitrary: i st)
  case Nil
  then show ?case by simp
next
  case (Cons row rs)
  have "rows_loop S P cols t i (row # rs) st =
          rows_loop S P cols t (i + 1) rs (rows_loop S P cols t i [row] st)"
    using rows_loop_append[of S P cols t i "[row]" rs st] by simp
  moreover obtain out where "counters (rows_loop S P cols t i [row] st) = bump out st"
    using row_step_counts by blast
  ultimately show ?case using Cons.IH counted_bump by fastforce
qed

lemma counted_start [simp]: "counted (start_run S P s0) = 0"
  by (simp add: counted_def start_run_def)

lemma after_rows_counted: "counted (after_rows S P df s0) = length (rows df)"
proof -
  have "counted ((start_run S P s0)\<lparr>skipped_fields_log := X\<rparr>) = 0" for X
    by (simp add: counted_def start_run_def)
  then show ?thesis by (simp add: after_rows_def Let_def rows_loop_counted)
qed

lemma counted_frame [simp]:
  "counted (publish_progress p t m s st) = counted st"
  "counted (log_error m t' st) = counted st"
  "counted (st\<lparr>db := d\<rparr>) = counted st"
  "counted (on_failure S P e st) = counted st"
  by (simp_all add: counted_def publish_progress_def log_error_def on_failure_def Let_def)

lemma process_excel_import_counted:
  "counted (process_excel_import S P (Inr df) s0) = length (rows df)"
  by (auto simp: process_excel_import_def Let_def after_rows_counted
           split: prod.splits option.splits)

text \<open>
  Claim C2. One iteration of the loop, its \<open>except\<close> branch included, raises exactly
  one of the four counters by one; the loop goes on with the remaining rows whatever the
  row did; so the counters grow by the number of rows, and when the loop of a run ends,
  and when the run returns, they add up to the number of rows of the dataset.
\<close>

theorem counters_account_for_every_row:
  "(\<exists>out. counters (rows_loop S P cols t i [row] st) = bump out st)
   \<and> rows_loop S P cols t i (row # rest) st =
       rows_loop S P cols t (i + 1) rest (rows_loop S P cols t i [row] st)
   \<and> counted (rows_loop S P cols t i rs st) = counted st + length rs
   \<and> counted (after_rows S P df s0) = length (rows df)
   \<and> counted (process_excel_import S P (Inr df) s0) = length (rows df)"
  using row_step_counts[of S P cols t i row st]
        rows_loop_append[of S P cols t i "[row]" rest st]
        rows_loop_counted[of S P cols t i rs st]
        after_rows_counted[of S P df s0]
        process_excel_import_counted[of S P df s0]
  by simp

text \<open>
  Alice is updated; Bob has no e-mail address, which the store requires: his row raises,
  and is counted as an error.
\<close>

theorem counters_account_for_every_row_witness:
  "counters (after_rows (mem_store [''email_addr'']) (contact_params 1 1) df2 mem_alice) = (0, 1, 0, 1)
   \<and> counted (after_rows (mem_store [''email_addr'']) (contact_params 1 1) df2 mem_alice) = length (rows df2)
   \<and> length (rows df2) = 2"
proof -
  have "counters (after_rows (mem_store [''email_addr'']) (contact_params 1 1) df2 mem_alice) = (0, 1, 0, 1)"
    by code_simp
  moreover have "length (rows df2) = 2" by code_simp
  ultimately show ?thesis 
    using counters_account_for_every_row[of "mem_store [''email_addr'']" "contact_params 1 1" _ _ _ _ _ _ _ df2 mem_alice]
    by simp
qed

section \<open>The progress events of a run\<close>

lemma report_progress_events:
  "events (report_progress total_rows idx st) =
     (if (idx + 1) mod 10 = 0 \<or> idx + 1 = total_rows then
        events st @
          [\<lparr>progress = progress_percent idx total_rows, total = total_rows,
            message = ''Processing row '' @ py_str (idx + 1) @ '' of '' @ py_str total_rows,
            status = ''in_progress''\<rparr>]
      else events st)"
  by (simp add: report_progress_def publish_progress_def)

lemma reconcile_events:
  "reconcile S P d x st = (r, st') \<Longrightarrow> events st' = events st"
  by (auto simp: reconcile_def split: if_splits prod.splits sum.splits option.splits)

lemma process_row_events:
  assumes "process_row S P cols t i row st = (r, st')"
  shows "(r \<noteq> None \<longrightarrow> events st' = events st)
       \<and> (r = None \<longrightarrow> (\<exists>st2. events st2 = events st \<and> st' = report_progress t i st2))"
proof -
  obtain d uv where dr: "row_draft P cols row = (d, uv)" by (cases "row_draft P cols row")
  obtain x s1 where fe: "find_existing S P uv (db st) = (x, s1)"
    by (cases "find_existing S P uv (db st)")
  show ?thesis
  proof (cases x)
    case (Inl e)
    then show ?thesis using assms dr fe by (auto simp: process_row_def)
  next
    case (Inr ex)
    obtain r2 st2 where rc: "reconcile S P d ex (st\<lparr>db := s1\<rparr>) = (r2, st2)"
      by (cases "reconcile S P d ex (st\<lparr>db := s1\<rparr>)")
    from reconcile_events[OF rc] have e2: "events st2 = events st" by simp
    show ?thesis using assms dr fe Inr rc e2 by (cases r2) (auto simp: process_row_def)
  qed
qed

lemma errored_row_publishes_nothing:
  "process_row S P cols t i row st = (Some e, st') \<Longrightarrow> events st' = events st"
  using process_row_events[of S P cols t i row st "Some e" st'] by simp

text \<open>
  Claim C5. The progress event is published inside the \<open>try\<close>, after the action: a row
  that raises leaves the block before it. A dataset of one row whose insert raises ends
  with the completion event alone; no \<open>in_progress\<close> event follows its last row.
\<close>

theorem errored_last_row_publishes_no_progress:
  "events (process_excel_import (mem_store [''email_addr'']) (contact_params 1 1)
             (Inr \<lparr>columns = contact_columns, rows = [bob_row]\<rparr>) mem_empty) =
     [\<lparr>progress = 100, total = 1,
       message = ''Import completed: 0 created, 0 updated, 0 skipped, 1 errors'',
       status = ''completed''\<rparr>]
   \<and> counters (process_excel_import (mem_store [''email_addr'']) (contact_params 1 1)
             (Inr \<lparr>columns = contact_columns, rows = [bob_row]\<rparr>) mem_empty) = (0, 0, 0, 1)"
  by code_simp

lemma sorted_snoc_iff: "sorted (xs @ [x]) \<longleftrightarrow> sorted xs \<and> (\<forall>y\<in>set xs. y \<le> (x::int))"
  by (auto simp: sorted_append)

lemma loop_inv_weaken: "loop_inv t k evs \<Longrightarrow> loop_inv t (Suc k) evs"
  by (auto simp: loop_inv_def list_all_iff)

lemma loop_inv_report:
  assumes "loop_inv t i (events st)" "i < t"
  shows "loop_inv t (Suc i) (events (report_progress t i st))"
proof (cases "(i + 1) mod 10 = 0 \<or> i + 1 = t")
  case False
  then show ?thesis using loop_inv_weaken[OF assms(1)] by (simp add: report_progress_def)
next
  case True
  have le: "\<forall>y\<in>set (events st). progress y \<le> progress_percent i t"
    using assms(1) by (auto simp: loop_inv_def list_all_iff)
  have mono: "\<forall>j\<ge>Suc i. progress_percent i t \<le> progress_percent j t"
    by (simp add: progress_percent_mono)
  show ?thesis
    using True assms le mono progress_percent_nonneg[of i t] progress_percent_le_100[OF assms(2)]
    by (auto simp: report_progress_def publish_progress_def loop_inv_def in_progress_ok_def
                   sorted_snoc_iff list_all_iff)
qed

lemma rows_loop_inv:
  "loop_inv t i (events st) \<Longrightarrow> i + length rs = t \<Longrightarrow>
   loop_inv t t (events (rows_loop S P cols t i rs st))"
proof (induction rs arbitrary: i st)
  case Nil
  then show ?case by simp
next
  case (Cons row rs)
  have it: "i < t" using Cons.prems(2) by simp
  obtain r st' where pr: "process_row S P cols t i row st = (r, st')"
    by (cases "process_row S P cols t i row st")
  note E = process_row_events[OF pr]
  show ?case
  proof (cases r)
    case None
    with E obtain st2 where s2: "events st2 = events st" "st' = report_progress t i st2" by auto
    have "loop_inv t (Suc i) (events st')"
      unfolding s2(2) by (rule loop_inv_report) (use Cons.prems(1) s2(1) it in simp_all)
    then have "loop_inv t t (events (rows_loop S P cols t (Suc i) rs st'))"
      by (rule Cons.IH) (use Cons.prems(2) in simp)
    then show ?thesis using pr None by simp
  next
    case (Some e)
    let ?st = "log_error
               (''Row '' @ py_str (i + 1) @ '': '' @ exn_str e @ [CHR 0x0A] @ exn_traceback e)
               (''Excel Import Row Error - '' @ doctype_name P)
               (st'\<lparr>error_count := error_count st' + 1\<rparr>)"
    have "events ?st = events st" using E Some by (simp add: log_error_def)
    then have "loop_inv t (Suc i) (events ?st)" using loop_inv_weaken[OF Cons.prems(1)] by simp
    then have "loop_inv t t (events (rows_loop S P cols t (Suc i) rs ?st))"
      by (rule Cons.IH) (use Cons.prems(2) in simp)
    then show ?thesis using pr Some by simp
  qed
qed

lemma after_rows_events: "in_progress_ok (events (after_rows S P df s0))"
proof -
  let ?st1 = "(start_run S P s0)\<lparr>skipped_fields_log :=
                 set (filter (\<lambda>col. \<not> dict_has (field_mapping P) col) (columns df))\<rparr>"
  have "loop_inv (length (rows df)) 0 (events ?st1)"
    by (simp add: loop_inv_def in_progress_ok_def start_run_def)
  then have "loop_inv (length (rows df)) (length (rows df))
               (events (rows_loop S P (columns df) (length (rows df)) 0 (rows df) ?st1))"
    by (rule rows_loop_inv) simp
  then show ?thesis by (simp add: after_rows_def Let_def loop_inv_def)
qed

lemma events_completed:
  "events (publish_progress 100 t m ''completed'' st) =
     events st @ [\<lparr>progress = 100, total = t, message = m, status = ''completed''\<rparr>]"
  by (simp add: publish_progress_def)

lemma in_progress_ok_sorted_100:
  "in_progress_ok evs \<Longrightarrow> sorted (map progress evs @ [100])"
  by (auto simp: in_progress_ok_def sorted_snoc_iff list_all_iff)

lemma events_on_failure:
  "events (on_failure S P e st) =
     events st @ [\<lparr>progress = 0, total = 0, message = ''Import failed: '' @ exn_str e,
                   status = ''error''\<rparr>]"
  by (simp add: on_failure_def Let_def publish_progress_def log_error_def)

lemma progress_events_shape:
  "events (process_excel_import S P rr s0) \<noteq> []
   \<and> in_progress_ok (butlast (events (process_excel_import S P rr s0)))
   \<and> (run_commits S P rr s0 \<longrightarrow>
        status (last (events (process_excel_import S P rr s0))) = ''completed''
        \<and> progress (last (events (process_excel_import S P rr s0))) = 100
        \<and> sorted (map progress (events (process_excel_import S P rr s0))))
   \<and> (\<not> run_commits S P rr s0 \<longrightarrow>
        status (last (events (process_excel_import S P rr s0))) = ''error''
        \<and> progress (last (events (process_excel_import S P rr s0))) = 0)"
proof (cases rr)
  case (Inl e)
  then show ?thesis
    by (simp add: process_excel_import_def events_on_failure run_commits_def start_run_def
                  in_progress_ok_def)
next
  case (Inr df)
  show ?thesis
  proof (cases "rows df = []")
    case True
    then show ?thesis using Inr
      by (simp add: process_excel_import_def run_commits_def start_run_def
                    publish_progress_def in_progress_ok_def)
  next
    case False
    note A = after_rows_events[of S P df s0]
    obtain r s3 where c: "db_commit S (db (after_rows S P df s0)) = (r, s3)"
      by (cases "db_commit S (db (after_rows S P df s0))")
    show ?thesis
    proof (cases r)
      case (Some e)
      then show ?thesis using Inr False c A
        by (simp add: process_excel_import_def Let_def run_commits_def events_on_failure)
    next
      case None
      obtain r4 s4 where cl: "cleanup S P s3 = (r4, s4)" by (cases "cleanup S P s3")
      have ev: "events (process_excel_import S P rr s0) =
              events (after_rows S P df s0) @
              [\<lparr>progress = 100, total = length (rows df),
                message = final_message
                  (case r4 of
                     Some e \<Rightarrow> log_error (''File deletion error: '' @ exn_str e)
                                 ''Excel Import File Cleanup'' ((after_rows S P df s0)\<lparr>db := s4\<rparr>)
                   | None \<Rightarrow> (after_rows S P df s0)\<lparr>db := s4\<rparr>),
                status = ''completed''\<rparr>]"
        using Inr False c None cl
        by (cases r4) (simp_all add: process_excel_import_def Let_def events_completed log_error_def)
      have rc: "run_commits S P rr s0" using Inr False c None by (simp add: run_commits_def)
      show ?thesis unfolding ev using rc A in_progress_ok_sorted_100[OF A] by simp
    qed
  qed
qed

lemma sorted_before_final_zero:
  assumes "evs \<noteq> []" "in_progress_ok (butlast evs)" "progress (last evs) = 0"
  shows "sorted (map progress evs) \<longleftrightarrow> list_all (\<lambda>e. progress e = 0) (butlast evs)"
proof -
  have e: "map progress evs = map progress (butlast evs) @ [0]"
    using assms(1,3) by (metis append_butlast_last_id list.simps(8,9) map_append)
  have nn: "\<forall>y\<in>set (butlast evs). 0 \<le> progress y" and s: "sorted (map progress (butlast evs))"
    using assms(2) by (auto simp: in_progress_ok_def list_all_iff)
  have "(\<forall>y\<in>set (butlast evs). progress y \<le> 0) \<longleftrightarrow> (\<forall>y\<in>set (butlast evs). progress y = 0)"
    using nn by (auto intro: order_antisym)
  then show ?thesis unfolding e sorted_snoc_iff using s by (simp add: list_all_iff)
qed

text \<open>
  Claim C6, amended. A run publishes at least one event. All events but the last are
  \<open>in_progress\<close> events with non-decreasing progress between 0 and 100. On the success
  path the last event has status \<open>completed\<close> and progress 100, and the whole sequence is
  non-decreasing. On every other path (unreadable file, no rows, failed commit) the last
  event has status \<open>error\<close> and progress 0, whatever was published before it; there the
  whole sequence is non-decreasing exactly when every event before the last reported 0.
\<close>

theorem progress_events_amended:
  "events (process_excel_import S P rr s0) \<noteq> []
   \<and> in_progress_ok (butlast (events (process_excel_import S P rr s0)))
   \<and> (run_commits S P rr s0 \<longrightarrow>
        status (last (events (process_excel_import S P rr s0))) = ''completed''
        \<and> progress (last (events (process_excel_import S P rr s0))) = 100
        \<and> sorted (map progress (events (process_excel_import S P rr s0))))
   \<and> (\<not> run_commits S P rr s0 \<longrightarrow>
        status (last (events (process_excel_import S P rr s0))) = ''error''
        \<and> progress (last (events (process_excel_import S P rr s0))) = 0
        \<and> (sorted (map progress (events (process_excel_import S P rr s0))) \<longleftrightarrow>
             list_all (\<lambda>e. progress e = 0) (butlast (events (process_excel_import S P rr s0)))))"
  using progress_events_shape[of S P rr s0]
        sorted_before_final_zero[of "events (process_excel_import S P rr s0)"]
  by blast

text \<open>
  A run of two rows that commits, a run of one row whose commit raises, and a run whose
  file cannot be read.
\<close>

theorem progress_events_amended_witness:
  "run_commits (mem_store []) (contact_params 1 1) (Inr df2) mem_empty
   \<and> \<not> run_commits (mem_store []) (contact_params 1 1) (Inr df1) (mem_empty\<lparr>commit_ok := False\<rparr>)
   \<and> \<not> run_commits (mem_store []) (contact_params 1 1) (Inl (Exn ''BadZipFile'' ''Traceback''))
         mem_empty
   \<and> sorted (map progress (events (process_excel_import (mem_store []) (contact_params 1 1) (Inr df2) mem_empty)))
   \<and> progress (last (events (process_excel_import (mem_store []) (contact_params 1 1) (Inr df2) mem_empty))) = 100
   \<and> progress (last (events (process_excel_import (mem_store []) (contact_params 1 1) (Inr df1)
                   (mem_empty\<lparr>commit_ok := False\<rparr>)))) = 0
   \<and> \<not> sorted (map progress (events (process_excel_import (mem_store []) (contact_params 1 1)
                   (Inr df1) (mem_empty\<lparr>commit_ok := False\<rparr>))))
   \<and> sorted (map progress (events (process_excel_import (mem_store []) (contact_params 1 1)
                   (Inl (Exn ''BadZipFile'' ''Traceback'')) mem_empty)))"
proof -
  let ?S = "mem_store []" and ?P = "contact_params 1 1"
  let ?bad = "mem_empty\<lparr>commit_ok := False\<rparr>"
  let ?e = "Exn ''BadZipFile'' ''Traceback''"
  have a: "run_commits ?S ?P (Inr df2) mem_empty" by code_simp
  have b: "\<not> run_commits ?S ?P (Inr df1) ?bad" by code_simp
  have c: "\<not> run_commits ?S ?P (Inl ?e) mem_empty" by (simp add: run_commits_def)
  have nz: "\<not> list_all (\<lambda>e. progress e = 0)
                (butlast (events (process_excel_import ?S ?P (Inr df1) ?bad)))"
    by code_simp
  have z: "list_all (\<lambda>e. progress e = 0)
                (butlast (events (process_excel_import ?S ?P (Inl ?e) mem_empty)))"
    by code_simp
  show ?thesis
    using a b c nz z
      progress_events_amended[of ?S ?P "Inr df2" mem_empty]
      progress_events_amended[of ?S ?P "Inr df1" ?bad]
      progress_events_amended[of ?S ?P "Inl ?e" mem_empty]
    by blast
qed

text \<open>
  Claim C6 as stated fails when the commit after the loop raises: the last row has
  reported 100 and the error event reports 0.
\<close>

theorem progress_not_monotone_counterexample:
  "map progress (events (process_excel_import (mem_store []) (contact_params 1 1) (Inr df1)
                   (mem_empty\<lparr>commit_ok := False\<rparr>))) = [100, 0]
   \<and> \<not> sorted (map progress (events (process_excel_import (mem_store []) (contact_params 1 1)
                   (Inr df1) (mem_empty\<lparr>commit_ok := False\<rparr>))))"
  by code_simp

section \<open>Empty dataset and top-level failure\<close>

text \<open>
  Claim C9. For a dataset without rows the run publishes the single event
  \<open>{progress: 0, total: 0, status: error}\<close> and returns; the store is the one the job
  started with, after the session switch: nothing was looked up, inserted, saved, deleted,
  committed or rolled back, and nothing was logged or counted.
\<close>

theorem empty_dataset:
  assumes "rows df = []"
  shows "events (process_excel_import S P (Inr df) s0) =
           [\<lparr>progress = 0, total = 0, message = ''No data found in Excel file'',
             status = ''error''\<rparr>]
       \<and> db (process_excel_import S P (Inr df) s0) = set_user S (user P) s0
       \<and> error_log (process_excel_import S P (Inr df) s0) = []
       \<and> counters (process_excel_import S P (Inr df) s0) = (0, 0, 0, 0)"
  using assms
  by (simp add: process_excel_import_def publish_progress_def start_run_def counters_def)

theorem empty_dataset_witness:
  "rows \<lparr>columns = contact_columns, rows = []\<rparr> = []
   \<and> events (process_excel_import (mem_store []) (contact_params 1 1)
                (Inr \<lparr>columns = contact_columns, rows = []\<rparr>) mem_alice) =
           [\<lparr>progress = 0, total = 0, message = ''No data found in Excel file'',
             status = ''error''\<rparr>]
   \<and> db (process_excel_import (mem_store []) (contact_params 1 1)
                (Inr \<lparr>columns = contact_columns, rows = []\<rparr>) mem_alice) = mem_alice"
proof -
  have r: "rows \<lparr>columns = contact_columns, rows = []\<rparr> = []" by simp
  have u: "set_user (mem_store []) (user (contact_params 1 1)) mem_alice = mem_alice"
    by (simp add: mem_store_def)
  show ?thesis using empty_dataset[OF r, of "mem_store []" "contact_params 1 1" mem_alice] r u
    by simp
qed

text \<open>
  Claim C10. On the top-level failure path, whether the file could not be read or the
  commit after a non-empty loop raised, the last event is the error event with progress 0
  and total 0. The event of an empty dataset has the same progress, total and status; the
  two messages always differ.
\<close>

theorem failure_event_total_zero:
  "(rr = Inl e \<or>
      (rr = Inr df \<and> rows df \<noteq> [] \<and> db_commit S (db (after_rows S P df s0)) = (Some e, s3))
    \<longrightarrow> last (events (process_excel_import S P rr s0)) =
          \<lparr>progress = 0, total = 0, message = ''Import failed: '' @ exn_str e,
           status = ''error''\<rparr>)
   \<and> (rows df' = []
    \<longrightarrow> last (events (process_excel_import S P (Inr df') s0)) =
          \<lparr>progress = 0, total = 0, message = ''No data found in Excel file'',
           status = ''error''\<rparr>)
   \<and> ''Import failed: '' @ m \<noteq> ''No data found in Excel file''"
  by (auto simp: process_excel_import_def Let_def events_on_failure publish_progress_def
                 start_run_def)

text \<open>
  A run over one row whose commit raises.
\<close>

theorem failure_event_total_zero_witness:
  "rows df1 \<noteq> [] \<and> length (rows df1) = 1
   \<and> db_commit (mem_store []) (db (after_rows (mem_store []) (contact_params 1 1) df1
                                       (mem_empty\<lparr>commit_ok := False\<rparr>))) =
       (Some (Exn ''OperationalError'' ''Traceback''),
        db (after_rows (mem_store []) (contact_params 1 1) df1 (mem_empty\<lparr>commit_ok := False\<rparr>)))
   \<and> last (events (process_excel_import (mem_store []) (contact_params 1 1) (Inr df1)
                     (mem_empty\<lparr>commit_ok := False\<rparr>))) =
       \<lparr>progress = 0, total = 0, message = ''Import failed: OperationalError'',
        status = ''error''\<rparr>"
proof -
  let ?S = "mem_store []" and ?P = "contact_params 1 1" and ?m = "mem_empty\<lparr>commit_ok := False\<rparr>"
  have r: "rows df1 \<noteq> []" "length (rows df1) = 1" by (simp_all add: df1_def)
  have c: "db_commit ?S (db (after_rows ?S ?P df1 ?m)) =
       (Some (Exn ''OperationalError'' ''Traceback''), db (after_rows ?S ?P df1 ?m))"
    by code_simp
  from failure_event_total_zero[where rr = "Inr df1" and df = df1 and S = ?S and P = ?P
         and ?s0.0 = ?m and e = "Exn ''OperationalError'' ''Traceback''"
         and ?s3.0 = "db (after_rows ?S ?P df1 ?m)"] r c
  have "last (events (process_excel_import ?S ?P (Inr df1) ?m)) =
          \<lparr>progress = 0, total = 0, message = ''Import failed: '' @ exn_str (Exn ''OperationalError'' ''Traceback''),
           status = ''error''\<rparr>"
    by blast
  then show ?thesis using r c by simp
qed

section \<open>The list of importable doctypes\<close>

text \<open>
  Without a search text the two mapping doctypes are never listed.
\<close>

lemma listing_without_search_excludes:
  assumes "[n] \<in> set (get_cipl_app_doctypes table [] start page_len)"
  shows "n \<noteq> ''excel_field_mapping'' \<and> n \<noteq> ''field_mapping_child''"
proof -
  let ?fc = "[(''module'', Equals (PStr ''Cipl App'')), (''istable'', Equals (PInt 0)),
              (''name'', NotIn [''excel_field_mapping'', ''field_mapping_child''])]"
  from assms have "n \<in> set (get_all table ?fc start page_len)"
    by (auto simp: get_cipl_app_doctypes_def Let_def)
  then have "n \<in> set (sort (map name
         (filter (\<lambda>r. list_all (\<lambda>(k, c). cond_holds c (row_field r k)) ?fc) table)))"
    unfolding get_all_def by (meson in_set_takeD in_set_dropD)
  then obtain r where "name r = n" "cond_holds (NotIn [''excel_field_mapping'', ''field_mapping_child''])
                                      (row_field r ''name'')"
    by auto
  then show ?thesis by (auto simp: row_field_def)
qed

text \<open>
  Claim C7. With a search text, the \<open>like\<close> condition is stored under the key
  \<open>name\<close> and replaces the exclusion list: \<open>excel_field_mapping\<close> is listed for the
  search texts \<open>excel\<close> and \<open>i\<close>.
\<close>

theorem search_text_drops_exclusion:
  "get_cipl_app_doctypes cipl_doctypes ''excel'' 0 20 = [[''excel_field_mapping'']]
   \<and> get_cipl_app_doctypes cipl_doctypes '''' 0 20 = [[''customer_visit'']]
   \<and> get_cipl_app_doctypes cipl_doctypes ''i'' 0 20 = [[''customer_visit''], [''excel_field_mapping'']]"
  by code_simp

end
